theory Spec2Isabelle
  imports
    Main
    "HOL-Library.Sublist"
    "HOL-Library.Char_ord"
    "HOL-Library.List_Lexorder"
    "HOL-Library.Product_Lexorder"
begin

section \<open>DRBot: a shallow embedding of drbot.py\<close>

text \<open>
  The script drives an external review engine (arcpy) and the operating system. Every call
  that leaves the script is modelled by an oracle of the record \<open>env\<close> that says how the
  call ends (normally, or with which exception), and by an entry in the trace of the
  state. The script's own data (the temporary log, the messages sent to the engine's
  message channel, the lines printed) are fields of the state. Python byte strings are
  \<open>string\<close>; Python's unbounded integers are \<open>int\<close>.
\<close>

subsection \<open>Exceptions and outcomes\<close>

text \<open>
  The exceptions the script can meet. \<open>IOError\<close> and \<open>OSError\<close> carry
  \<open>(errno, strerror)\<close>, the two values the handlers read as \<open>exc[0]\<close> and
  \<open>exc[1]\<close>; \<open>ExecuteError\<close> carries the engine's message.
\<close>

datatype exc =
    IndexError string
  | IOError int string
  | OSError int string
  | ShutilError string
  | ExecuteError string
  | UnboundLocalError string
  | OtherError string

text \<open>How a statement sequence ends: it runs through, a \<open>return v\<close> leaves the function, or an
  exception escapes.\<close>

datatype 'a outcome = Ok 'a | Raise exc

subsection \<open>Formatting integers\<close>

definition digit_char :: "nat \<Rightarrow> char" where
  "digit_char n = ''0123456789'' ! n"

fun str_nat :: "nat \<Rightarrow> string" where
  "str_nat n = (if n < 10 then [digit_char n] else str_nat (n div 10) @ [digit_char (n mod 10)])"

declare str_nat.simps [simp del]

text \<open>\<open>str(i)\<close>, \<open>"{}".format(i)\<close> and \<open>"%d" % i\<close> for an integer \<open>i\<close>.\<close>

definition str_int :: "int \<Rightarrow> string" where
  "str_int i = (if i < 0 then CHR ''-'' # str_nat (nat (- i)) else str_nat (nat i))"

subsection \<open>The temporary log (class TmpLog)\<close>

definition found_marker :: string where
  "found_marker = ''Found''"

text \<open>\<open>log\<close>: \<open>self.tmp_log_list.append(str(msg))\<close>.\<close>

definition log_line :: "string \<Rightarrow> string list \<Rightarrow> string list" where
  "log_line msg tmp_log_list = tmp_log_list @ [msg]"

text \<open>\<open>count_lines_with\<close>: the loop over the log with the counter \<open>cnt\<close>; \<open>s in itm\<close> is
  Python's substring test.\<close>

fun count_loop :: "string \<Rightarrow> string list \<Rightarrow> nat \<Rightarrow> nat" where
  "count_loop s [] cnt = cnt"
| "count_loop s (itm # rest) cnt = count_loop s rest (if sublist s itm then cnt + 1 else cnt)"

definition count_lines_with :: "string \<Rightarrow> string list \<Rightarrow> nat" where
  "count_lines_with s tmp_log_list = count_loop s tmp_log_list 0"

fun contains_line_with :: "string \<Rightarrow> string list \<Rightarrow> bool" where
  "contains_line_with s [] = False"
| "contains_line_with s (itm # rest) = (if sublist s itm then True else contains_line_with s rest)"

subsection \<open>The summariser (DRBot.summarise_dr_output)\<close>

text \<open>One row of REVTABLEMAIN, with the five fields the cursor selects:
  CHECKTITLE, ORIGINTABLE, SUBTYPE, OBJECTID, NOTES (the field \<open>notes'\<close>).\<close>

record finding =
  title :: string
  fc :: string
  fcs :: string
  objectid :: int
  notes' :: string

text \<open>\<open>encode_if_unicode\<close> turns a unicode value into its UTF-8 bytes and applies \<open>str\<close>
  to anything else. Strings are byte strings here, so it returns its argument.\<close>

definition encode_if_unicode :: "string \<Rightarrow> string" where
  "encode_if_unicode strval = strval"

text \<open>\<open>"Total {} DRBot hits for {}\n".format(check_count, prev_check)\<close>\<close>

definition total_line :: "nat \<Rightarrow> string \<Rightarrow> string" where
  "total_line check_count prev_check =
     ''Total '' @ str_int (int check_count) @ '' DRBot hits for '' @ prev_check @ [CHR 0x0A]"

text \<open>\<open>fcs_str = ", " + fcs[:6] if len(fcs) > 0 else ""\<close>\<close>

definition fcs_str :: "string \<Rightarrow> string" where
  "fcs_str s = (if length s > 0 then '', '' @ take 6 s else '''')"

text \<open>\<open>found_marker + " {}{}, OBJECTID={}: {} ({})".format(fc, fcs_str, objectid, title, notes)\<close>\<close>

definition found_line :: "finding \<Rightarrow> string" where
  "found_line row =
     found_marker @ '' '' @ fc row @ fcs_str (fcs row) @ '', OBJECTID='' @ str_int (objectid row)
       @ '': '' @ encode_if_unicode (title row) @ '' ('' @ encode_if_unicode (notes' row) @ '')''"

text \<open>The \<open>for row in cursor\<close> loop; its variables are \<open>check_count\<close>, \<open>prev_check\<close> and
  the log.\<close>

fun summarise_loop :: "finding list \<Rightarrow> nat \<Rightarrow> string \<Rightarrow> string list \<Rightarrow> nat \<times> string \<times> string list" where
  "summarise_loop [] check_count prev_check lg = (check_count, prev_check, lg)"
| "summarise_loop (row # rows) check_count prev_check lg =
     (let lg1 = (if title row \<noteq> prev_check \<and> prev_check \<noteq> ''''
                 then log_line (total_line check_count prev_check) lg else lg);
          prev1 = (if title row \<noteq> prev_check then title row else prev_check);
          count1 = (if title row \<noteq> prev_check then 0 else check_count);
          count2 = count1 + 1;
          lg2 = log_line (found_line row) lg1
      in summarise_loop rows count2 prev1 lg2)"

text \<open>The part of \<open>summarise_dr_output\<close> after the cursor has delivered its rows.\<close>

definition summarise_rows :: "finding list \<Rightarrow> string list \<Rightarrow> string list" where
  "summarise_rows rows lg =
     (case summarise_loop rows 0 '''' lg of
        (check_count, prev_check, lg1) \<Rightarrow>
          (let lg2 = (if prev_check \<noteq> '''' then log_line (total_line check_count prev_check) lg1 else lg1)
           in if count_lines_with found_marker lg2 = 0 then log_line ''No errors found.'' lg2 else lg2))"

subsection \<open>The engine's error code (parse_arc_error)\<close>

text \<open>
  \<open>re.search('ERROR 0+([1-9]\d*):', e.message)\<close>. The pattern is a sequence of atoms: a
  character class, taken once, once or more (\<open>+\<close>) or any number of times (\<open>*\<close>), and a
  flag saying whether the atom stands inside group 1. \<open>match_here\<close> is the backtracking
  matcher of Python's \<open>re\<close> at one start position: quantifiers are greedy and give
  characters back when the rest of the pattern fails. It returns the text of group 1.
\<close>

datatype quant = Once | Plus | Star

type_synonym atom = "(char \<Rightarrow> bool) \<times> quant \<times> bool"

definition grp :: "bool \<Rightarrow> string \<Rightarrow> char \<Rightarrow> string" where
  "grp captured g x = (if captured then g @ [x] else g)"

fun match_here :: "atom list \<Rightarrow> string \<Rightarrow> string \<Rightarrow> string option" where
  "match_here [] s g = Some g"
| "match_here ((p, Once, c) # rest) [] g = None"
| "match_here ((p, Once, c) # rest) (x # xs) g =
     (if p x then match_here rest xs (grp c g x) else None)"
| "match_here ((p, Plus, c) # rest) [] g = None"
| "match_here ((p, Plus, c) # rest) (x # xs) g =
     (if p x then match_here ((p, Star, c) # rest) xs (grp c g x) else None)"
| "match_here ((p, Star, c) # rest) [] g = match_here rest [] g"
| "match_here ((p, Star, c) # rest) (x # xs) g =
     (if p x
      then (case match_here ((p, Star, c) # rest) xs (grp c g x) of
              Some r \<Rightarrow> Some r
            | None \<Rightarrow> match_here rest (x # xs) g)
      else match_here rest (x # xs) g)"

text \<open>\<open>re.search\<close>: the first start position, from the left, at which the pattern matches.\<close>

fun re_search :: "atom list \<Rightarrow> string \<Rightarrow> string option" where
  "re_search pat [] = match_here pat [] []"
| "re_search pat (x # xs) =
     (case match_here pat (x # xs) [] of Some g \<Rightarrow> Some g | None \<Rightarrow> re_search pat xs)"

definition lit :: "char \<Rightarrow> atom" where
  "lit ch = ((\<lambda>x. x = ch), Once, False)"

text \<open>The class \<open>\d\<close> on a byte string, and the class \<open>[1-9]\<close>.\<close>

definition is_digit :: "char \<Rightarrow> bool" where
  "is_digit x = (x \<in> set ''0123456789'')"

definition is_nonzero_digit :: "char \<Rightarrow> bool" where
  "is_nonzero_digit x = (x \<in> set ''123456789'')"

definition arc_error_pattern :: "atom list" where
  "arc_error_pattern =
     map lit ''ERROR '' @
     [((\<lambda>x. x = CHR ''0''), Plus, False),
      (is_nonzero_digit, Once, True),
      (is_digit, Star, True),
      lit CHR '':'']"

text \<open>\<open>int(s)\<close> for a string of decimal digits.\<close>

definition digit_val :: "char \<Rightarrow> int" where
  "digit_val x = int (of_char x) - 48"

definition int_of_digits :: "string \<Rightarrow> int" where
  "int_of_digits ds = foldl (\<lambda>a x. 10 * a + digit_val x) 0 ds"

text \<open>\<open>e.message\<close>: the single argument of the exception, and the empty string for an
  exception built from \<open>(errno, strerror)\<close>.\<close>

fun message :: "exc \<Rightarrow> string" where
  "message (IndexError m) = m"
| "message (IOError n m) = []"
| "message (OSError n m) = []"
| "message (ShutilError m) = m"
| "message (ExecuteError m) = m"
| "message (UnboundLocalError m) = m"
| "message (OtherError m) = m"

definition parse_arc_error :: "exc \<Rightarrow> int outcome" where
  "parse_arc_error e =
     (case re_search arc_error_pattern (message e) of
        None \<Rightarrow> Raise e
      | Some g \<Rightarrow> Ok (int_of_digits g))"

subsection \<open>The state of a run and the outside world\<close>

text \<open>The calls that leave the script, in the order they are made.\<close>

datatype event =
    CheckOutExtension string
  | CheckInExtension string
  | ExecuteReviewerBatchJob string string string string
  | CreateReviewerSession string string "string option"
  | Rmtree string
  | Copytree string string
  | CreateFileGDB string string
  | EnableDataReviewer string string
  | OpenRead string
  | WriteFile string "string list"
  | SmtpConnect string
  | SmtpSendmail string "string list" string
  | SmtpQuit

text \<open>
  The fields of the \<open>DRBot\<close> object (\<open>db\<close>, \<open>dr_gdb_location\<close>, \<open>template_dr_gdb\<close>,
  \<open>coord_sys\<close>, and \<open>tmp_log\<close> for \<open>self.tmp_log.tmp_log_list\<close>), what the script has
  sent to \<open>arcpy.AddMessage\<close> and to \<open>print\<close>, the directories that exist
  (\<open>os.path.isdir\<close>), and the trace of outside calls.
\<close>

record state =
  db :: string
  dr_gdb_location :: string
  template_dr_gdb :: string
  coord_sys :: string
  tmp_log :: "string list"
  messages :: "string list"
  printed :: "string list"
  dirs :: "string list"
  trace :: "event list"

text \<open>
  How each outside call ends. \<open>None\<close> is a normal return, \<open>Some e\<close> the exception raised;
  a call that delivers a value returns \<open>Inr\<close> of it or \<open>Inl\<close> of the exception. The
  functions of \<open>os.path\<close> depend on the platform and are taken as they come.
\<close>

record env =
  now_str :: string
  duration_str :: string
  script_file :: string
  path_dirname :: "string \<Rightarrow> string"
  path_basename :: "string \<Rightarrow> string"
  path_join :: "string \<Rightarrow> string \<Rightarrow> string"
  read_file :: "string \<Rightarrow> exc + string"
  open_write :: "string \<Rightarrow> exc option"
  rmtree :: "string \<Rightarrow> exc option"
  copytree :: "string \<Rightarrow> string \<Rightarrow> exc option"
  create_file_gdb :: "string \<Rightarrow> string \<Rightarrow> exc option"
  enable_data_reviewer :: "string \<Rightarrow> string \<Rightarrow> exc option"
  create_reviewer_session :: "string \<Rightarrow> string \<Rightarrow> string option \<Rightarrow> exc option"
  add_field_delimiters :: "string \<Rightarrow> string \<Rightarrow> string"
  session_cursor :: "string \<Rightarrow> string \<Rightarrow> exc + int list"
  execute_batch_job :: "string \<Rightarrow> string \<Rightarrow> string \<Rightarrow> string \<Rightarrow> exc option"
  findings_cursor :: "string \<Rightarrow> string \<Rightarrow> exc + finding list"
  smtp_connect :: "string \<Rightarrow> exc option"
  smtp_sendmail :: "string \<Rightarrow> string list \<Rightarrow> string \<Rightarrow> exc option"
  smtp_quit :: "exc option"
  exc_str :: "exc \<Rightarrow> string"
  exc_repr :: "exc \<Rightarrow> string"
  format_exc :: "exc \<Rightarrow> string"

definition set_msg :: "string \<Rightarrow> state \<Rightarrow> state" where
  "set_msg s st = st\<lparr>messages := messages st @ [s]\<rparr>"

definition print_line :: "string \<Rightarrow> state \<Rightarrow> state" where
  "print_line s st = st\<lparr>printed := printed st @ [s]\<rparr>"

definition log_msg :: "string \<Rightarrow> state \<Rightarrow> state" where
  "log_msg msg st = st\<lparr>tmp_log := log_line msg (tmp_log st)\<rparr>"

definition emit :: "event \<Rightarrow> state \<Rightarrow> state" where
  "emit ev st = st\<lparr>trace := trace st @ [ev]\<rparr>"

definition isdir :: "state \<Rightarrow> string \<Rightarrow> bool" where
  "isdir st p = (p \<in> set (dirs st))"

text \<open>\<open>exc[0] == n\<close> in a handler: the first argument of the exception is its \<open>errno\<close> for
  \<open>IOError\<close> and \<open>OSError\<close> and a string, never equal to a number, for the others.\<close>

fun arg0_is :: "exc \<Rightarrow> int \<Rightarrow> bool" where
  "arg0_is (IOError k m) n = (k = n)"
| "arg0_is (OSError k m) n = (k = n)"
| "arg0_is e n = False"

text \<open>\<open>exc[1]\<close>, read only after \<open>exc[0] == n\<close> held.\<close>

fun arg1 :: "exc \<Rightarrow> string" where
  "arg1 (IOError k m) = m"
| "arg1 (OSError k m) = m"
| "arg1 e = []"

fun is_IOError :: "exc \<Rightarrow> bool" where
  "is_IOError (IOError k m) = True"
| "is_IOError e = False"

fun is_ExecuteError :: "exc \<Rightarrow> bool" where
  "is_ExecuteError (ExecuteError m) = True"
| "is_ExecuteError e = False"

fun is_ShutilError :: "exc \<Rightarrow> bool" where
  "is_ShutilError (ShutilError m) = True"
| "is_ShutilError e = False"

subsection \<open>The workspace (make_dr_gdb, clean_dr_ws, prep_dr_ws)\<close>

text \<open>The \<open>try\<close> block that creates the empty geodatabase and enables it.\<close>

definition create_empty_gdb :: "env \<Rightarrow> state \<Rightarrow> exc option \<times> state" where
  "create_empty_gdb ev st =
     (let loc = dr_gdb_location st;
          d = path_dirname ev loc;
          b = path_basename ev loc;
          st1 = emit (CreateFileGDB d b) st
      in case create_file_gdb ev d b of
           Some e \<Rightarrow> (Some e, st1)
         | None \<Rightarrow>
             (let st2 = st1\<lparr>dirs := dirs st1 @ [path_join ev d b]\<rparr>;
                  st3 = emit (EnableDataReviewer loc (coord_sys st2)) st2
              in (enable_data_reviewer ev loc (coord_sys st2), st3)))"

text \<open>The first \<open>if\<close> of \<open>make_dr_gdb\<close>: copy the template when there is one; neither handler
  raises again. \<open>shutil.copytree\<close> makes the destination directory before it copies the
  entries and raises \<open>shutil.Error\<close> only at its end, with the errors it has collected: the
  destination exists then. Any other exception comes before the destination is made.\<close>

definition copy_template :: "env \<Rightarrow> state \<Rightarrow> state" where
  "copy_template ev st =
     (if isdir st (template_dr_gdb st)
      then (let st1 = emit (Copytree (template_dr_gdb st) (dr_gdb_location st)) st
            in case copytree ev (template_dr_gdb st) (dr_gdb_location st) of
                 None \<Rightarrow> st1\<lparr>dirs := dirs st1 @ [dr_gdb_location st1]\<rparr>
               | Some e \<Rightarrow>
                   (if is_ShutilError e
                    then set_msg (''  errors: '' @ message e)
                           (set_msg ''  Couldn't copy DR gdb template (shutil.Error).''
                              (st1\<lparr>dirs := dirs st1 @ [dr_gdb_location st1]\<rparr>))
                    else (let st2 = set_msg ''  Couldn't copy DR gdb template (non-shutil.Error).'' st1
                          in if arg0_is e 183
                             then set_msg (''  '' @ arg1 e) st2
                             else set_msg (''  Exception while copying template gdb: '' @ exc_str ev e) st2)))
      else st)"

text \<open>\<open>make_dr_gdb\<close> returns \<open>None\<close>, or \<open>1\<close> when the empty geodatabase could not be made.\<close>

definition make_dr_gdb :: "env \<Rightarrow> state \<Rightarrow> int option \<times> state" where
  "make_dr_gdb ev st =
     (let st1 = set_msg ''Making DR gdb...'' st;
          st2 = copy_template ev st1
      in if \<not> isdir st2 (dr_gdb_location st2)
         then (let st3 = set_msg ''Creating empty fgdb for DR...'' st2
               in case create_empty_gdb ev st3 of
                    (None, st4) \<Rightarrow> (None, st4)
                  | (Some e, st4) \<Rightarrow> (Some 1, set_msg ''Couldn't create empty gdb for DR workspace.'' st4))
         else (None, st2))"

text \<open>\<open>clean_dr_ws\<close> returns \<open>None\<close>, or \<open>1\<close> when the workspace is in use.\<close>

definition clean_dr_ws :: "env \<Rightarrow> state \<Rightarrow> int option \<times> state" where
  "clean_dr_ws ev st =
     (let st1 = set_msg ''Cleaning up DR gdb...'' st
      in if isdir st1 (dr_gdb_location st1)
         then (let st2 = set_msg (''Deleting DR gdb '' @ dr_gdb_location st1 @ ''...'') st1;
                   st3 = emit (Rmtree (dr_gdb_location st2)) st2
               in case rmtree ev (dr_gdb_location st3) of
                    None \<Rightarrow>
                      (case make_dr_gdb ev (st3\<lparr>dirs := removeAll (dr_gdb_location st3) (dirs st3)\<rparr>) of
                         (r, st4) \<Rightarrow> (None, st4))
                  | Some e \<Rightarrow>
                      (let st4 = set_msg ''Failed to delete existing DR gdb.'' st3
                       in if arg0_is e 32
                          then (Some 1, set_msg (''  '' @ arg1 e) st4)
                          else (let st5 = set_msg (''Exception during DR workspace cleanup '' @ exc_str ev e) st4;
                                    st6 = set_msg (format_exc ev e) st5
                                in case make_dr_gdb ev st6 of (r, st7) \<Rightarrow> (None, st7))))
         else (None, st1))"

definition prep_dr_ws :: "env \<Rightarrow> string \<Rightarrow> state \<Rightarrow> unit outcome \<times> state" where
  "prep_dr_ws ev session_name st =
     (let st1 = set_msg ''Preparing Data Reviewer Session...'' st;
          st2 = (if \<not> isdir st1 (dr_gdb_location st1) then snd (make_dr_gdb ev st1) else st1);
          st3 = set_msg (''    Database: '' @ dr_gdb_location st2) st2;
          loc = dr_gdb_location st3;
          st4 = emit (CreateReviewerSession loc session_name (Some ''Session 1 : empty'')) st3
      in case create_reviewer_session ev loc session_name (Some ''Session 1 : empty'') of
           None \<Rightarrow> (Ok (), st4)
         | Some e \<Rightarrow>
             (if is_ExecuteError e
              then (let st5 = set_msg ''  Couldn't create reviewer session from template, ignoring template.'' st4;
                        st6 = emit (CreateReviewerSession loc session_name None) st5
                    in case create_reviewer_session ev loc session_name None of
                         None \<Rightarrow> (Ok (), st6)
                       | Some e2 \<Rightarrow>
                           (Ok (), set_msg (format_exc ev e2)
                                     (set_msg ''Problem while creating empty reviewer session: '' st6)))
              else (Raise e, st4)))"

subsection \<open>The rule files (DRBot.fix_path and the manifest)\<close>

text \<open>
  \<open>if path[1] != ":" and path[0] != "/": return os.path.join(basepath, path)\<close>.
  \<open>path[1]\<close> is read first, and raises \<open>IndexError\<close> on a path of fewer than two characters.
\<close>

definition fix_path :: "env \<Rightarrow> string \<Rightarrow> string \<Rightarrow> string outcome" where
  "fix_path ev path basepath =
     (if length path < 2 then Raise (IndexError ''string index out of range'')
      else if path ! 1 \<noteq> CHR '':'' \<and> path ! 0 \<noteq> CHR ''/''
      then Ok (path_join ev basepath path)
      else Ok path)"

text \<open>\<open>str.splitlines\<close> of a byte string: a line ends at \<open>\n\<close>, \<open>\r\<close> or \<open>\r\n\<close>, and a last
  line without an end is a line too.\<close>

fun splitlines_from :: "string \<Rightarrow> string \<Rightarrow> string list" where
  "splitlines_from [] cur = (if cur = [] then [] else [cur])"
| "splitlines_from (x # xs) cur =
     (if x = CHR 0x0A then cur # splitlines_from xs []
      else if x = CHR 0x0D
      then (case xs of
              [] \<Rightarrow> [cur]
            | y # ys \<Rightarrow> if y = CHR 0x0A then cur # splitlines_from ys [] else cur # splitlines_from (y # ys) [])
      else splitlines_from xs (cur @ [x]))"

definition splitlines :: "string \<Rightarrow> string list" where
  "splitlines s = splitlines_from s []"

text \<open>The comprehension
  \<open>[DRBot.fix_path(lin, os.path.dirname(rules)) for lin in lines if lin[:1] != "#"]\<close>;
  the first exception of \<open>fix_path\<close> ends it.\<close>

fun resolve_lines :: "env \<Rightarrow> string \<Rightarrow> string list \<Rightarrow> string list outcome" where
  "resolve_lines ev rules [] = Ok []"
| "resolve_lines ev rules (lin # lins) =
     (if take 1 lin \<noteq> ''#''
      then (case fix_path ev lin (path_dirname ev rules) of
              Raise e \<Rightarrow> Raise e
            | Ok p \<Rightarrow>
                (case resolve_lines ev rules lins of
                   Raise e \<Rightarrow> Raise e
                 | Ok ps \<Rightarrow> Ok (p # ps)))
      else resolve_lines ev rules lins)"

text \<open>How the loading of the rule files ends: \<open>rulefiles\<close> is bound, it is left unbound (an
  I/O error other than a missing file was logged), \<open>runDR\<close> returns a value, or an exception
  escapes.\<close>

datatype load_result = Loaded "string list" | NotBound | Returned int | LoadRaised exc

definition load_rules :: "env \<Rightarrow> string \<Rightarrow> state \<Rightarrow> load_result \<times> state" where
  "load_rules ev rules st =
     (if sublist ''.txt'' rules
      then (let st1 = emit (OpenRead rules) st;
                r = (case read_file ev rules of
                       Inl e \<Rightarrow> Raise e
                     | Inr contents \<Rightarrow> resolve_lines ev rules (splitlines contents))
            in case r of
                 Ok rulefiles \<Rightarrow> (Loaded rulefiles, st1)
               | Raise e \<Rightarrow>
                   (if is_IOError e
                    then (let st2 = set_msg (''ERROR reading rules '' @ rules @ ''.'') st1
                          in if arg0_is e 2
                             then (Returned 1, set_msg (arg1 e) st2)
                             else (NotBound, set_msg (format_exc ev e) st2))
                    else (LoadRaised e, st1)))
      else (Loaded [rules], st))"

subsection \<open>Running the rules (DRBot.runDR)\<close>

text \<open>The loop \<open>for rulefile in rulefiles\<close> with its inner \<open>try\<close>: an \<open>ExecuteError\<close> goes
  through \<open>parse_arc_error\<close>; code 732 is logged, anything else is raised again.\<close>

fun exec_rules :: "env \<Rightarrow> string \<Rightarrow> string list \<Rightarrow> state \<Rightarrow> unit outcome \<times> state" where
  "exec_rules ev sessionidstr [] st = (Ok (), st)"
| "exec_rules ev sessionidstr (rulefile # rulefiles) st =
     (let st1 = set_msg (''  Checking file: '' @ rulefile) st;
          st2 = print_line (''Rules: '' @ rulefile) st1;
          st3 = emit (ExecuteReviewerBatchJob (dr_gdb_location st2) sessionidstr rulefile (db st2)) st2
      in case execute_batch_job ev (dr_gdb_location st2) sessionidstr rulefile (db st2) of
           None \<Rightarrow> exec_rules ev sessionidstr rulefiles st3
         | Some ee \<Rightarrow>
             (if is_ExecuteError ee
              then (case parse_arc_error ee of
                      Raise e \<Rightarrow> (Raise e, st3)
                    | Ok err \<Rightarrow>
                        (if err = 732
                         then exec_rules ev sessionidstr rulefiles
                                (log_msg (''Found execution error: File '' @ rulefile @ '' not found.'') st3)
                         else (Raise ee, st3)))
              else (Raise ee, st3)))"

definition summarise_dr_output :: "env \<Rightarrow> int \<Rightarrow> state \<Rightarrow> unit outcome \<times> state" where
  "summarise_dr_output ev sess_obj_id st =
     (case findings_cursor ev (dr_gdb_location st @ ''/REVTABLEMAIN'') (''SESSIONID='' @ str_int sess_obj_id) of
        Inl e \<Rightarrow> (Raise e, st)
      | Inr rows \<Rightarrow> (Ok (), st\<lparr>tmp_log := summarise_rows rows (tmp_log st)\<rparr>))"

text \<open>The first part of the \<open>try\<close> of \<open>runDR\<close>, up to the two log lines before the loop: it
  delivers \<open>sess_obj_id\<close>, the value of the last row of the session cursor (unbound when the
  cursor has no row), and \<open>sessionidstr\<close>.\<close>

definition open_session :: "env \<Rightarrow> string \<Rightarrow> state \<Rightarrow> (int \<times> string) outcome \<times> state" where
  "open_session ev session_name st =
     (case prep_dr_ws ev session_name st of
        (Raise e, st1) \<Rightarrow> (Raise e, st1)
      | (Ok u, st1) \<Rightarrow>
          (let table = dr_gdb_location st1 @ [CHR 0x5C] @ ''GDB_REVSESSIONTABLE'';
               sessionnamefld = add_field_delimiters ev table ''SESSIONNAME'';
               session_where = sessionnamefld @ '' = '' @ [CHR 0x27] @ session_name @ [CHR 0x27]
           in case session_cursor ev table session_where of
                Inl e \<Rightarrow> (Raise e, st1)
              | Inr ids \<Rightarrow>
                  (if ids = []
                   then (Raise (UnboundLocalError ''local variable 'sess_obj_id' referenced before assignment''), st1)
                   else (let sess_obj_id = last ids;
                             sessionidstr = ''Session '' @ str_int sess_obj_id @ '' : '' @ session_name;
                             st2 = set_msg (''  Created session:'' @ [CHR 0x0A] @ ''    '' @ sessionidstr) st1;
                             st3 = log_msg (''Checking '' @ db st2) st2;
                             st4 = log_msg (''Errors will be written to '' @ dr_gdb_location st3) st3
                         in (Ok (sess_obj_id, sessionidstr), st4)))))"

text \<open>The body of the \<open>try\<close> of \<open>runDR\<close>. \<open>rulefiles\<close> is \<open>None\<close> when the variable was left
  unbound.\<close>

definition dr_body :: "env \<Rightarrow> string list option \<Rightarrow> string \<Rightarrow> state \<Rightarrow> unit outcome \<times> state" where
  "dr_body ev rulefiles session_name st =
     (case open_session ev session_name st of
        (Raise e, st4) \<Rightarrow> (Raise e, st4)
      | (Ok (sess_obj_id, sessionidstr), st4) \<Rightarrow>
          (case rulefiles of
             None \<Rightarrow>
               (Raise (UnboundLocalError ''local variable 'rulefiles' referenced before assignment''), st4)
           | Some fs \<Rightarrow>
               (case exec_rules ev sessionidstr fs st4 of
                  (Raise e, st5) \<Rightarrow> (Raise e, st5)
                | (Ok u, st5) \<Rightarrow>
                    summarise_dr_output ev sess_obj_id
                      (set_msg (''Checks completed, summarising output.'' @ [CHR 0x0A, CHR 0x0A]) st5))))"

text \<open>The \<open>try ... except Exception\<close> around the body, the check-in and the closing log lines.\<close>

definition run_checks :: "env \<Rightarrow> string list option \<Rightarrow> string \<Rightarrow> state \<Rightarrow> state" where
  "run_checks ev rulefiles session_name st =
     (let st1 = (case dr_body ev rulefiles session_name st of
                   (Ok u, s) \<Rightarrow> s
                 | (Raise e, s) \<Rightarrow>
                     set_msg (format_exc ev e) (set_msg (''Exception during DRBot '' @ exc_str ev e) s));
          st2 = emit (CheckInExtension ''datareviewer'') st1;
          st3 = log_msg ''Done'' st2
      in log_msg ([CHR 0x0A] @ ''Total '' @ script_file ev @ '' duration (h:mm:ss.dd): '' @ duration_str ev) st3)"

text \<open>\<open>runDR\<close> returns \<open>None\<close>, or \<open>1\<close> when the manifest is missing.\<close>

definition runDR :: "env \<Rightarrow> string \<Rightarrow> string \<Rightarrow> state \<Rightarrow> int option outcome \<times> state" where
  "runDR ev rules sess_keywd st =
     (let st1 = log_msg (''Start time: '' @ now_str ev) st;
          st2 = emit (CheckOutExtension ''datareviewer'') st1;
          session_name = sess_keywd;
          st3 = set_msg (''Loading rule file(s) from '' @ rules @ ''...'') st2
      in case load_rules ev rules st3 of
           (LoadRaised e, st4) \<Rightarrow> (Raise e, st4)
         | (Returned n, st4) \<Rightarrow> (Ok (Some n), st4)
         | (NotBound, st4) \<Rightarrow> (Ok None, run_checks ev None session_name st4)
         | (Loaded rulefiles, st4) \<Rightarrow> (Ok None, run_checks ev (Some rulefiles) session_name st4))"

subsection \<open>Reporting (TmpLog.write_to_file, TmpLog.send_email, DRBot.report_output)\<close>

definition email_server :: string where
  "email_server = ''smtp.organisation.net''"

definition email_sender :: string where
  "email_sender = ''Batch Script <batch_user@organisation.net>''"

text \<open>\<open>write_to_file\<close>: \<open>open(filename, 'w')\<close> may raise; each line is written as
  \<open>"%s\n" % logline\<close>.\<close>

definition write_to_file :: "env \<Rightarrow> string \<Rightarrow> state \<Rightarrow> unit outcome \<times> state" where
  "write_to_file ev filename st =
     (case open_write ev filename of
        Some e \<Rightarrow> (Raise e, st)
      | None \<Rightarrow> (Ok (), emit (WriteFile filename (map (\<lambda>logline. logline @ [CHR 0x0A]) (tmp_log st))) st))"

text \<open>The loop of \<open>send_email\<close> over the log, with \<open>message\<close> and \<open>issue_count\<close>.\<close>

fun email_loop :: "string \<Rightarrow> string list \<Rightarrow> string \<Rightarrow> int \<Rightarrow> string \<times> int" where
  "email_loop count_flag [] msg issue_count = (msg, issue_count)"
| "email_loop count_flag (logline # rest) msg issue_count =
     email_loop count_flag rest (msg @ logline @ [CHR 0x0A])
       (if sublist count_flag logline then issue_count + 1 else issue_count)"

text \<open>\<open>sep.join(xs)\<close>\<close>

fun join_str :: "string \<Rightarrow> string list \<Rightarrow> string" where
  "join_str sep [] = []"
| "join_str sep [x] = x"
| "join_str sep (x # y # ys) = x @ sep @ join_str sep (y # ys)"

text \<open>The \<open>try\<close> block of \<open>send_email\<close>: connect, send, quit; the first exception ends it.\<close>

definition smtp_session :: "env \<Rightarrow> string \<Rightarrow> string list \<Rightarrow> string \<Rightarrow> state \<Rightarrow> exc option \<times> state" where
  "smtp_session ev sender email_lst body st =
     (let st1 = emit (SmtpConnect email_server) st
      in case smtp_connect ev email_server of
           Some e \<Rightarrow> (Some e, st1)
         | None \<Rightarrow>
             (let st2 = emit (SmtpSendmail sender email_lst body) st1
              in case smtp_sendmail ev sender email_lst body of
                   Some e \<Rightarrow> (Some e, st2)
                 | None \<Rightarrow> (smtp_quit ev, emit SmtpQuit st2)))"

text \<open>The text handed to the mail server: the header lines, the subject with the number of
  issues when \<open>count_flag\<close> is not empty, and the lines of the log.\<close>

definition email_body :: "string \<Rightarrow> string list \<Rightarrow> string \<Rightarrow> string \<Rightarrow> string list \<Rightarrow> string" where
  "email_body sender email_lst subject count_flag lg =
     (case email_loop count_flag lg [] 0 of
        (msg, issue_count) \<Rightarrow>
          (let subject1 = (if count_flag \<noteq> [] then subject @ '' - '' @ str_int issue_count @ '' issues''
                           else subject)
           in ''From: '' @ sender @ [CHR 0x0A] @ ''To: '' @ join_str '', '' email_lst @ [CHR 0x0A]
                @ ''Subject: '' @ subject1 @ [CHR 0x0A, CHR 0x0A] @ msg @ [CHR 0x0A] @ ''        ''))"

definition send_email :: "env \<Rightarrow> string \<Rightarrow> string list \<Rightarrow> string \<Rightarrow> string \<Rightarrow> state \<Rightarrow> unit outcome \<times> state" where
  "send_email ev sender email_lst subject count_flag st =
     (let body = email_body sender email_lst subject count_flag (tmp_log st)
      in case smtp_session ev sender email_lst body st of
           (None, st1) \<Rightarrow> (Ok (), st1)
         | (Some e, st1) \<Rightarrow>
             (Ok (), print_line (exc_repr ev e) (print_line ''Couldn't send email.'' st1)))"

text \<open>\<open>report_output\<close>. \<open>mails\<close> is a list of addresses; the empty string the caller passes
  for "nobody" is the empty list here, both of length 0.\<close>

definition report_output :: "env \<Rightarrow> string \<Rightarrow> string list \<Rightarrow> string \<Rightarrow> bool \<Rightarrow> state \<Rightarrow> unit outcome \<times> state" where
  "report_output ev logfile mails subj always_send_mail st =
     (let mails1 = (if mails = [[]] then [] else mails)
      in case (if length logfile > 0 then write_to_file ev logfile st else (Ok (), st)) of
           (Raise e, st1) \<Rightarrow> (Raise e, st1)
         | (Ok u, st1) \<Rightarrow>
             (let always1 = (if \<not> always_send_mail \<and> length mails1 > 0
                             then (if contains_line_with found_marker (tmp_log st1) then True else always_send_mail)
                             else always_send_mail)
              in if always1 \<and> length mails1 > 0
                 then send_email ev email_sender mails1 (''DRBot Run, '' @ subj) found_marker st1
                 else (Ok (), st1)))"

subsection \<open>The command line (DRBot.run_from_sysargs)\<close>

text \<open>\<open>s.split(ch)\<close>\<close>

fun split_on :: "char \<Rightarrow> string \<Rightarrow> string list" where
  "split_on ch [] = [[]]"
| "split_on ch (x # xs) =
     (if x = ch then [] # split_on ch xs
      else (case split_on ch xs of
              [] \<Rightarrow> [[x]]
            | h # t \<Rightarrow> (x # h) # t))"

text \<open>\<open>s.rfind(ch)\<close>: the highest index of \<open>ch\<close>, or \<open>-1\<close>.\<close>

definition rfind :: "char \<Rightarrow> string \<Rightarrow> int" where
  "rfind ch s =
     (case filter (\<lambda>i. s ! i = ch) (rev [0..<length s]) of
        [] \<Rightarrow> - 1
      | i # rest \<Rightarrow> int i)"

text \<open>\<open>argv\<close> is \<open>sys.argv\<close>, the name of the script first.\<close>

definition run_from_sysargs :: "env \<Rightarrow> string \<Rightarrow> string list \<Rightarrow> state \<Rightarrow> unit outcome \<times> state" where
  "run_from_sysargs ev def_rules argv st =
     (if length argv = 2 \<and> argv ! 1 = ''clean''
      then (case clean_dr_ws ev st of (r, st1) \<Rightarrow> (Ok (), log_msg ''Cleanup completed.'' st1))
      else (let rules = (if length argv > 1 then argv ! 1 else def_rules);
                logfile = (if length argv > 2 then argv ! 2 else []);
                st1 = (if length argv > 3 then st\<lparr>db := argv ! 3\<rparr> else st);
                mails = (if length argv > 4 then split_on CHR '','' (argv ! 4) else []);
                sess_name = drop (nat (1 + rfind (CHR 0x5C) logfile)) logfile
            in case runDR ev rules sess_name st1 of
                 (Raise e, st2) \<Rightarrow> (Raise e, st2)
               | (Ok r, st2) \<Rightarrow> report_output ev logfile mails (last (split_on (CHR 0x5C) rules)) True st2))"

subsection \<open>A concrete world for the examples\<close>

text \<open>
  Windows-style path functions for paths without a drive: the directory of a path is the
  text before its last backslash, and joining puts one backslash between a non-empty
  directory and a relative path.
\<close>

definition nt_dirname :: "string \<Rightarrow> string" where
  "nt_dirname p = take (nat (rfind (CHR 0x5C) p)) p"

definition nt_basename :: "string \<Rightarrow> string" where
  "nt_basename p = drop (nat (1 + rfind (CHR 0x5C) p)) p"

definition nt_join :: "string \<Rightarrow> string \<Rightarrow> string" where
  "nt_join a b = (if a = [] then b else a @ [CHR 0x5C] @ b)"

text \<open>A world in which every outside call succeeds, no file can be read, the session
  table has one row with id 7 and the findings table is empty.\<close>

definition demo_env :: env where
  "demo_env =
     \<lparr> now_str = ''2017-01-01 12:00:00.000000'',
       duration_str = ''0:00:01.000'',
       script_file = ''drbot.py'',
       path_dirname = nt_dirname,
       path_basename = nt_basename,
       path_join = nt_join,
       read_file = (\<lambda>p. Inl (IOError 2 ''No such file or directory'')),
       open_write = (\<lambda>p. None),
       rmtree = (\<lambda>p. None),
       copytree = (\<lambda>a b. None),
       create_file_gdb = (\<lambda>a b. None),
       enable_data_reviewer = (\<lambda>a b. None),
       create_reviewer_session = (\<lambda>a b c. None),
       add_field_delimiters = (\<lambda>a b. b),
       session_cursor = (\<lambda>a b. Inr [7]),
       execute_batch_job = (\<lambda>a b c d. None),
       findings_cursor = (\<lambda>a b. Inr []),
       smtp_connect = (\<lambda>a. None),
       smtp_sendmail = (\<lambda>a b c. None),
       smtp_quit = None,
       exc_str = message,
       exc_repr = message,
       format_exc = message \<rparr>"

definition demo_state :: state where
  "demo_state =
     \<lparr> db = ''testdata.gdb'',
       dr_gdb_location = ''drbot_test.gdb'',
       template_dr_gdb = [],
       coord_sys = ''4326'',
       tmp_log = [],
       messages = [],
       printed = [],
       dirs = [],
       trace = [] \<rparr>"

text \<open>Three findings, sorted by check title and record id.\<close>

definition demo_rows :: "finding list" where
  "demo_rows =
     [\<lparr>title = ''Gap'', fc = ''Roads'', fcs = ''Motorway'', objectid = 4, notes' = ''a''\<rparr>,
      \<lparr>title = ''Gap'', fc = ''Roads'', fcs = [], objectid = 12, notes' = ''b''\<rparr>,
      \<lparr>title = ''Null'', fc = ''Lakes'', fcs = ''Pond'', objectid = 3, notes' = ''c''\<rparr>]"

text \<open>One finding whose check title is the empty string.\<close>

definition untitled_rows :: "finding list" where
  "untitled_rows = [\<lparr>title = [], fc = ''Roads'', fcs = [], objectid = 1, notes' = ''n''\<rparr>]"

text \<open>The same world with an engine that does not find \<open>b.rbj\<close> (code 732) and cannot
  write the output of \<open>c.rbj\<close> (code 210).\<close>

definition faulty_env :: env where
  "faulty_env =
     demo_env\<lparr>execute_batch_job :=
       (\<lambda>loc sid rf d.
          if rf = ''b.rbj'' then Some (ExecuteError ''ERROR 000732: Input batch job file does not exist'')
          else if rf = ''c.rbj'' then Some (ExecuteError ''ERROR 000210: Cannot create output'')
          else None)\<rparr>"

subsection \<open>What the summary should hold\<close>

text \<open>
  The summary in the words of the specification: for one check title, the "Found" lines
  of the rows with that title, in the order of the rows, and then one "Total" line with
  their number; for a list of rows, these blocks for its distinct titles.
\<close>

definition title_block :: "finding list \<Rightarrow> string \<Rightarrow> string list" where
  "title_block rows t =
     map found_line (filter (\<lambda>r. title r = t) rows)
       @ [total_line (length (filter (\<lambda>r. title r = t) rows)) t]"

definition summary_lines :: "finding list \<Rightarrow> string list" where
  "summary_lines rows = concat (map (title_block rows) (remdups (map title rows)))"

text \<open>What the loop has logged once the pending total is written.\<close>

definition finish :: "nat \<times> string \<times> string list \<Rightarrow> string list" where
  "finish res =
     (case res of
        (check_count, prev_check, lg) \<Rightarrow>
          (if prev_check \<noteq> [] then log_line (total_line check_count prev_check) lg else lg))"

text \<open>The outside calls that only touch the workspace directory.\<close>

fun is_workspace_event :: "event \<Rightarrow> bool" where
  "is_workspace_event (Rmtree p) = True"
| "is_workspace_event (Copytree a b) = True"
| "is_workspace_event (CreateFileGDB a b) = True"
| "is_workspace_event (EnableDataReviewer a b) = True"
| "is_workspace_event e = False"

text \<open>Between two traces of one run, nothing but calls on the workspace directory was made:
  no license call, no batch job, no session, no file read or written, no mail.\<close>

definition only_workspace_calls :: "event list \<Rightarrow> event list \<Rightarrow> bool" where
  "only_workspace_calls before after =
     (prefix before after \<and> list_all is_workspace_event (drop (length before) after))"

text \<open>The numeric code of the engine error that running a rule file ends with, if it ends
  with an engine error that carries one.\<close>

definition engine_error_code :: "env \<Rightarrow> string \<Rightarrow> string \<Rightarrow> string \<Rightarrow> string \<Rightarrow> int option" where
  "engine_error_code ev loc sid rf d =
     (case execute_batch_job ev loc sid rf d of
        None \<Rightarrow> None
      | Some ee \<Rightarrow>
          (if is_ExecuteError ee
           then (case parse_arc_error ee of Ok n \<Rightarrow> Some n | Raise e \<Rightarrow> None)
           else None))"

text \<open>A rule file that does not stop the batch: its job succeeds, or ends with code 732.\<close>

definition job_passes :: "env \<Rightarrow> string \<Rightarrow> string \<Rightarrow> string \<Rightarrow> string \<Rightarrow> bool" where
  "job_passes ev loc sid d rf =
     (execute_batch_job ev loc sid rf d = None \<or> engine_error_code ev loc sid rf d = Some 732)"

text \<open>The state after the loop has tried the rule files \<open>fs\<close>, of which \<open>missing\<close> ended
  with code 732.\<close>

definition after_jobs :: "string \<Rightarrow> string list \<Rightarrow> string list \<Rightarrow> state \<Rightarrow> state" where
  "after_jobs sid fs missing st =
     st\<lparr>messages := messages st @ map (\<lambda>f. ''  Checking file: '' @ f) fs,
        printed := printed st @ map (\<lambda>f. ''Rules: '' @ f) fs,
        trace := trace st @ map (\<lambda>f. ExecuteReviewerBatchJob (dr_gdb_location st) sid f (db st)) fs,
        tmp_log := tmp_log st @ map (\<lambda>f. ''Found execution error: File '' @ f @ '' not found.'') missing\<rparr>"

text \<open>The form \<open>0...N\<close> of an error code in a message: one or more zeros \<open>zs\<close>, and the
  digits \<open>n\<close> of a positive number, the first of them not a zero.\<close>

definition code_form :: "string \<Rightarrow> string \<Rightarrow> bool" where
  "code_form zs n =
     (zs \<noteq> [] \<and> list_all (\<lambda>x. x = CHR ''0'') zs
      \<and> n \<noteq> [] \<and> is_nonzero_digit (hd n) \<and> list_all is_digit n)"

section \<open>Properties\<close>

subsection \<open>Resolving a rule-file path\<close>

text \<open>
  C5. For a path of at least two characters, \<open>fix_path\<close> returns the path unchanged when
  its second character is a colon or its first character is a slash, and otherwise returns
  the base directory joined with the path.
\<close>

theorem fix_path_resolution:
  "2 \<le> length path \<Longrightarrow>
   fix_path ev path basepath =
     Ok (if path ! 1 = CHR '':'' \<or> path ! 0 = CHR ''/'' then path else path_join ev basepath path)"
  by (simp add: fix_path_def)

theorem fix_path_resolution_witness:
  "2 \<le> length ''ruleA.rbj'' \<and>
   fix_path demo_env ''ruleA.rbj'' ''rules'' = Ok (''rules'' @ [CHR 0x5C] @ ''ruleA.rbj'') \<and>
   fix_path demo_env ''c:/r/ruleA.rbj'' ''rules'' = Ok ''c:/r/ruleA.rbj'' \<and>
   fix_path demo_env ''/r/ruleA.rbj'' ''rules'' = Ok ''/r/ruleA.rbj''"
  using fix_path_resolution [of "''ruleA.rbj''" demo_env "''rules''"]
    fix_path_resolution [of "''c:/r/ruleA.rbj''" demo_env "''rules''"]
    fix_path_resolution [of "''/r/ruleA.rbj''" demo_env "''rules''"]
  by (simp add: demo_env_def nt_join_def)

subsection \<open>The summary of the findings\<close>

lemma count_loop_filter: "count_loop s lg cnt = cnt + length (filter (sublist s) lg)"
  by (induction lg arbitrary: cnt) auto

lemma count_lines_with_filter: "count_lines_with s lg = length (filter (sublist s) lg)"
  by (simp add: count_lines_with_def count_loop_filter)

lemma sorted_not_in_dropWhile:
  "sorted (t # xs) \<Longrightarrow> t \<notin> set (dropWhile (\<lambda>x. x = t) xs)"
  by (induction xs) auto

lemma remdups_block:
  "\<forall>x\<in>set as. f x = t \<Longrightarrow> t \<notin> f ` set bs \<Longrightarrow>
   remdups (t # map f (as @ bs)) = t # remdups (map f bs)"
  by (induction as) auto

lemma sorted_titles_of_keys:
  "sorted (map (\<lambda>r. (title r, objectid r)) rows) \<Longrightarrow> sorted (map title rows)"
  by (induction rows) (auto simp: less_eq_prod_def)

lemma found_line_prefix: "prefix ''Found'' (found_line r)"
  by (simp add: found_line_def found_marker_def)

lemma total_line_prefix: "prefix ''Total'' (total_line n t)"
  by (simp add: total_line_def)

lemma found_line_not_total: "\<not> prefix ''Total'' (found_line r)"
  by (simp add: found_line_def found_marker_def)

lemma total_line_not_found: "\<not> prefix ''Found'' (total_line n t)"
  by (simp add: total_line_def)

lemma titles_dropWhile:
  assumes "sorted (map title (r # rs))"
  shows "title r \<notin> title ` set (dropWhile (\<lambda>x. title x = title r) rs)"
proof -
  have "title r \<notin> set (dropWhile (\<lambda>x. x = title r) (map title rs))"
    using assms sorted_not_in_dropWhile [of "title r" "map title rs"] by simp
  then show ?thesis
    by (simp add: dropWhile_map comp_def)
qed

lemma filter_same_title:
  assumes "\<forall>x\<in>set as. title x = t" and "t \<notin> title ` set bs"
  shows "filter (\<lambda>x. title x = t) (as @ bs) = as"
proof -
  have "filter (\<lambda>x. title x = t) as = as" using assms(1) by (induction as) auto
  moreover have "filter (\<lambda>x. title x = t) bs = []" using assms(2) by (induction bs) auto
  ultimately show ?thesis by simp
qed

lemma filter_other_title:
  assumes "\<forall>x\<in>set as. title x = t" and "u \<noteq> t"
  shows "filter (\<lambda>x. title x = u) (as @ bs) = filter (\<lambda>x. title x = u) bs"
proof -
  have "filter (\<lambda>x. title x = u) as = []" using assms by (induction as) auto
  then show ?thesis by simp
qed


lemma summary_lines_Cons:
  assumes "sorted (map title (r # rs))"
  shows "summary_lines (r # rs) =
           (found_line r # map found_line (takeWhile (\<lambda>x. title x = title r) rs))
           @ [total_line (Suc (length (takeWhile (\<lambda>x. title x = title r) rs))) (title r)]
           @ summary_lines (dropWhile (\<lambda>x. title x = title r) rs)"
proof -
  define t where "t = title r"
  define as where "as = r # takeWhile (\<lambda>x. title x = t) rs"
  define bs where "bs = dropWhile (\<lambda>x. title x = t) rs"
  have split: "r # rs = as @ bs"
    by (simp add: as_def bs_def)
  have same: "\<forall>x\<in>set as. title x = t"
    by (auto simp: as_def t_def dest: set_takeWhileD)
  have notin: "t \<notin> title ` set bs"
    using titles_dropWhile [OF assms] by (simp add: bs_def t_def)
  have "remdups (t # map title (takeWhile (\<lambda>x. title x = t) rs @ bs)) = t # remdups (map title bs)"
    by (rule remdups_block) (use notin in \<open>auto dest: set_takeWhileD\<close>)
  then have titles: "remdups (map title (as @ bs)) = t # remdups (map title bs)"
    by (simp add: as_def t_def)
  have own: "title_block (as @ bs) t = map found_line as @ [total_line (length as) t]"
    by (simp only: title_block_def filter_same_title [OF same notin])
  have others: "map (title_block (as @ bs)) (remdups (map title bs)) =
                map (title_block bs) (remdups (map title bs))"
  proof (rule map_cong [OF refl])
    fix u assume "u \<in> set (remdups (map title bs))"
    then have "u \<noteq> t" using notin by auto
    from filter_other_title [OF same this]
    show "title_block (as @ bs) u = title_block bs u"
      by (simp only: title_block_def)
  qed
  have "summary_lines (as @ bs) = title_block (as @ bs) t @ summary_lines bs"
    by (simp only: summary_lines_def titles list.map concat.simps others)
  then have "summary_lines (r # rs) = map found_line as @ [total_line (length as) t] @ summary_lines bs"
    by (simp only: split own append_assoc)
  then show ?thesis
    by (simp add: as_def bs_def t_def)
qed

lemma summarise_loop_sorted:
  assumes "sorted (map title rows)" and "\<forall>r\<in>set rows. title r \<noteq> []"
    and "prev \<noteq> [] \<Longrightarrow> \<forall>r\<in>set rows. prev \<le> title r"
  shows "finish (summarise_loop rows cnt prev lg) =
           lg @ (if prev = [] then summary_lines rows
                 else map found_line (takeWhile (\<lambda>x. title x = prev) rows)
                        @ [total_line (cnt + length (takeWhile (\<lambda>x. title x = prev) rows)) prev]
                        @ summary_lines (dropWhile (\<lambda>x. title x = prev) rows))"
  using assms
proof (induction rows arbitrary: cnt prev lg)
  case Nil
  show ?case
    by (simp add: finish_def log_line_def summary_lines_def)
next
  case (Cons r rs)
  have srt: "sorted (map title rs)" and ne: "\<forall>x\<in>set rs. title x \<noteq> []"
    and tr: "title r \<noteq> []" and lower: "\<forall>x\<in>set rs. title r \<le> title x"
    using Cons.prems(1,2) by auto
  have new_title:
    "finish (summarise_loop rs 1 (title r) lg') =
       lg' @ map found_line (takeWhile (\<lambda>x. title x = title r) rs)
          @ [total_line (Suc (length (takeWhile (\<lambda>x. title x = title r) rs))) (title r)]
          @ summary_lines (dropWhile (\<lambda>x. title x = title r) rs)" for lg'
    using Cons.IH [OF srt ne, of "title r" 1 lg'] tr lower by simp
  show ?case
  proof (cases "title r = prev")
    case True
    then have "prev \<noteq> []" using tr by simp
    moreover have "\<forall>x\<in>set rs. prev \<le> title x" using lower True by simp
    ultimately have
      "finish (summarise_loop rs (cnt + 1) prev (lg @ [found_line r])) =
         (lg @ [found_line r]) @ map found_line (takeWhile (\<lambda>x. title x = prev) rs)
          @ [total_line (cnt + 1 + length (takeWhile (\<lambda>x. title x = prev) rs)) prev]
          @ summary_lines (dropWhile (\<lambda>x. title x = prev) rs)"
      using Cons.IH [OF srt ne, of prev "cnt + 1" "lg @ [found_line r]"] by simp
    then show ?thesis
      using True tr by (simp add: log_line_def)
  next
    case False
    show ?thesis
    proof (cases "prev = []")
      case True
      then show ?thesis
        using False new_title [of "lg @ [found_line r]"] summary_lines_Cons [OF Cons.prems(1)]
        by (simp add: log_line_def)
    next
      case nonempty: False
      then show ?thesis
        using False new_title [of "(lg @ [total_line cnt prev]) @ [found_line r]"]
          summary_lines_Cons [OF Cons.prems(1)]
        by (simp add: log_line_def)
    qed
  qed
qed

lemma found_in_found_line: "sublist found_marker (found_line r)"
  by (simp add: found_line_def)

lemma summary_lines_Nil: "summary_lines [] = []"
  by (simp add: summary_lines_def)

lemma summarise_rows_sorted:
  assumes "sorted (map title rows)" and "\<forall>r\<in>set rows. title r \<noteq> []"
  shows "summarise_rows rows lg =
           lg @ summary_lines rows
              @ (if rows = [] \<and> count_lines_with found_marker lg = 0 then [''No errors found.''] else [])"
proof -
  have fin: "finish (summarise_loop rows 0 [] lg) = lg @ summary_lines rows"
    using summarise_loop_sorted [OF assms, of "[]" 0 lg] by simp
  have rows_def: "summarise_rows rows lg =
      (let lg2 = finish (summarise_loop rows 0 [] lg)
       in if count_lines_with found_marker lg2 = 0 then log_line ''No errors found.'' lg2 else lg2)"
    by (simp add: summarise_rows_def finish_def split: prod.splits)
  show ?thesis
  proof (cases rows)
    case Nil
    show ?thesis
      unfolding rows_def fin using Nil by (simp add: log_line_def summary_lines_Nil)
  next
    case (Cons r rs)
    have "found_line r \<in> set (summary_lines rows)"
      using summary_lines_Cons [of r rs] assms(1) Cons by simp
    then have "filter (sublist found_marker) (summary_lines rows) \<noteq> []"
      using found_in_found_line [of r] by (auto simp: filter_empty_conv)
    then have "count_lines_with found_marker (lg @ summary_lines rows) \<noteq> 0"
      by (simp add: count_lines_with_filter)
    then show ?thesis
      unfolding rows_def fin using Cons by simp
  qed
qed

lemma sorted_titles_dropWhile:
  "sorted (map title rs) \<Longrightarrow> sorted (map title (dropWhile P rs))"
  by (simp add: sorted_map)

lemma filter_found_lines: "filter (prefix ''Found'') (map found_line rs) = map found_line rs"
  by (induction rs) (simp_all add: found_line_prefix)

lemma found_lines_of_summary:
  "sorted (map title rows) \<Longrightarrow> filter (prefix ''Found'') (summary_lines rows) = map found_line rows"
proof (induction rows rule: length_induct)
  case (1 rows)
  show ?case
  proof (cases rows)
    case Nil
    then show ?thesis by (simp add: summary_lines_Nil)
  next
    case (Cons r rs)
    define bs where "bs = dropWhile (\<lambda>x. title x = title r) rs"
    have "length bs < length rows"
      using length_dropWhile_le [of "\<lambda>x. title x = title r" rs] Cons by (simp add: bs_def)
    moreover have "sorted (map title bs)"
      using "1.prems" Cons sorted_titles_dropWhile [of rs] by (simp add: bs_def)
    ultimately have ih: "filter (prefix ''Found'') (summary_lines bs) = map found_line bs"
      using "1.IH" by blast
    have "filter (prefix ''Found'') (summary_lines (r # rs)) =
            found_line r # map found_line (takeWhile (\<lambda>x. title x = title r) rs) @ map found_line bs"
      using "1.prems" Cons
      by (simp add: summary_lines_Cons filter_found_lines found_line_prefix total_line_not_found
            ih [unfolded bs_def] bs_def)
    also have "\<dots> = map found_line (r # takeWhile (\<lambda>x. title x = title r) rs @ bs)"
      by simp
    finally show ?thesis
      using Cons by (simp add: bs_def)
  qed
qed

lemma filter_total_block:
  "filter (prefix ''Total'') (title_block rows t) =
     [total_line (length (filter (\<lambda>r. title r = t) rows)) t]"
proof -
  have "filter (prefix ''Total'') (map found_line rs) = []" for rs
    by (induction rs) (simp_all add: found_line_not_total)
  then show ?thesis
    by (simp add: title_block_def total_line_prefix)
qed

lemma total_lines_of_summary:
  "filter (prefix ''Total'') (summary_lines rows) =
     map (\<lambda>t. total_line (length (filter (\<lambda>r. title r = t) rows)) t) (remdups (map title rows))"
proof -
  have "filter (prefix ''Total'') (concat (map (title_block rows) ts)) =
          map (\<lambda>t. total_line (length (filter (\<lambda>r. title r = t) rows)) t) ts" for ts
    by (induction ts) (simp_all add: filter_total_block)
  then show ?thesis
    by (simp add: summary_lines_def)
qed

lemma demo_rows_summary:
  "summary_lines demo_rows =
     [''Found Roads, Motorw, OBJECTID=4: Gap (a)'',
      ''Found Roads, OBJECTID=12: Gap (b)'',
      ''Total 2 DRBot hits for Gap'' @ [CHR 0x0A],
      ''Found Lakes, Pond, OBJECTID=3: Null (c)'',
      ''Total 1 DRBot hits for Null'' @ [CHR 0x0A]]"
  by (simp add: demo_rows_def summary_lines_def title_block_def found_line_def total_line_def
        found_marker_def fcs_str_def str_int_def str_nat.simps digit_char_def encode_if_unicode_def)

text \<open>
  C1 (amended). When the findings of the session are sorted by (check title, record id) and
  every check title is non-empty, \<open>summarise_dr_output\<close> appends to the log, for each
  distinct title, the "Found" lines of the rows with that title and then one "Total" line
  with their number: there is exactly one "Found" line per row, in the order of the rows,
  and exactly one "Total" line per distinct title. The subtype part of a "Found" line is
  left out when the subtype is empty and is its first six characters otherwise.
\<close>

theorem summarise_dr_output_sorted:
  assumes "findings_cursor ev (dr_gdb_location st @ ''/REVTABLEMAIN'')
             (''SESSIONID='' @ str_int sess_obj_id) = Inr rows"
    and "sorted (map (\<lambda>r. (title r, objectid r)) rows)"
    and "\<forall>r\<in>set rows. title r \<noteq> []"
  shows "summarise_dr_output ev sess_obj_id st =
           (Ok (), st\<lparr>tmp_log := tmp_log st @ summary_lines rows
              @ (if rows = [] \<and> count_lines_with found_marker (tmp_log st) = 0
                 then [''No errors found.''] else [])\<rparr>)
         \<and> summary_lines rows =
             concat (map (\<lambda>t. map found_line (filter (\<lambda>r. title r = t) rows)
                               @ [total_line (length (filter (\<lambda>r. title r = t) rows)) t])
                       (remdups (map title rows)))
         \<and> filter (prefix ''Found'') (summary_lines rows) = map found_line rows
         \<and> filter (prefix ''Total'') (summary_lines rows) =
             map (\<lambda>t. total_line (length (filter (\<lambda>r. title r = t) rows)) t) (remdups (map title rows))
         \<and> found_line r =
             ''Found '' @ fc r @ (if fcs r = [] then [] else '', '' @ take 6 (fcs r))
               @ '', OBJECTID='' @ str_int (objectid r) @ '': '' @ title r @ '' ('' @ notes' r @ '')''"
proof -
  have srt: "sorted (map title rows)"
    using assms(2) by (rule sorted_titles_of_keys)
  have "summarise_dr_output ev sess_obj_id st =
          (Ok (), st\<lparr>tmp_log := summarise_rows rows (tmp_log st)\<rparr>)"
    using assms(1) by (simp add: summarise_dr_output_def)
  then have run: "summarise_dr_output ev sess_obj_id st =
           (Ok (), st\<lparr>tmp_log := tmp_log st @ summary_lines rows
              @ (if rows = [] \<and> count_lines_with found_marker (tmp_log st) = 0
                 then [''No errors found.''] else [])\<rparr>)"
    by (simp only: summarise_rows_sorted [OF srt assms(3)])
  have blocks: "summary_lines rows =
             concat (map (\<lambda>t. map found_line (filter (\<lambda>r. title r = t) rows)
                               @ [total_line (length (filter (\<lambda>r. title r = t) rows)) t])
                       (remdups (map title rows)))"
    by (simp add: summary_lines_def title_block_def [abs_def])
  have shape: "found_line r =
             ''Found '' @ fc r @ (if fcs r = [] then [] else '', '' @ take 6 (fcs r))
               @ '', OBJECTID='' @ str_int (objectid r) @ '': '' @ title r @ '' ('' @ notes' r @ '')''"
    by (simp add: found_line_def found_marker_def fcs_str_def encode_if_unicode_def)
  show ?thesis
    using run blocks found_lines_of_summary [OF srt] total_lines_of_summary [of rows] shape
    by (intro conjI)
qed

theorem summarise_dr_output_sorted_witness:
  "findings_cursor (demo_env\<lparr>findings_cursor := (\<lambda>a b. Inr demo_rows)\<rparr>)
     (dr_gdb_location demo_state @ ''/REVTABLEMAIN'') (''SESSIONID='' @ str_int 7) = Inr demo_rows
   \<and> sorted (map (\<lambda>r. (title r, objectid r)) demo_rows)
   \<and> list_all (\<lambda>r. title r \<noteq> []) demo_rows
   \<and> summarise_dr_output (demo_env\<lparr>findings_cursor := (\<lambda>a b. Inr demo_rows)\<rparr>) 7 demo_state =
       (Ok (), demo_state\<lparr>tmp_log :=
          [''Found Roads, Motorw, OBJECTID=4: Gap (a)'',
           ''Found Roads, OBJECTID=12: Gap (b)'',
           ''Total 2 DRBot hits for Gap'' @ [CHR 0x0A],
           ''Found Lakes, Pond, OBJECTID=3: Null (c)'',
           ''Total 1 DRBot hits for Null'' @ [CHR 0x0A]]\<rparr>)"
proof -
  have c: "findings_cursor (demo_env\<lparr>findings_cursor := (\<lambda>a b. Inr demo_rows)\<rparr>)
     (dr_gdb_location demo_state @ ''/REVTABLEMAIN'') (''SESSIONID='' @ str_int 7) = Inr demo_rows"
    by simp
  have s: "sorted (map (\<lambda>r. (title r, objectid r)) demo_rows)"
    by (simp add: demo_rows_def less_eq_prod_def)
  have n: "\<forall>r\<in>set demo_rows. title r \<noteq> []"
    by (simp add: demo_rows_def)
  have l: "tmp_log demo_state = []" and d: "demo_rows \<noteq> []"
    by (simp_all add: demo_state_def demo_rows_def)
  show ?thesis
    using summarise_dr_output_sorted [OF c s n] c s n
    by (simp add: demo_rows_summary l d list_all_iff)
qed

text \<open>
  The claim as stated fails for a row whose check title is the empty string: the loop uses
  the empty string for "no title yet", so the rows of that title get their "Found" lines
  and no "Total" line.
\<close>

theorem summarise_untitled_counterexample:
  "sorted (map (\<lambda>r. (title r, objectid r)) untitled_rows)
   \<and> remdups (map title untitled_rows) = [[]]
   \<and> summarise_rows untitled_rows [] = [''Found Roads, OBJECTID=1:  (n)'']
   \<and> filter (prefix ''Total'') (summarise_rows untitled_rows []) = []"
  by (simp add: untitled_rows_def summarise_rows_def found_line_def found_marker_def fcs_str_def
        str_int_def str_nat.simps digit_char_def encode_if_unicode_def log_line_def
        count_lines_with_def)

text \<open>
  C6 (amended). When the cursor delivers no row, \<open>summarise_dr_output\<close> appends exactly one
  line "No errors found." if no line already in the log contains the marker "Found", and
  appends nothing otherwise.
\<close>

theorem summarise_no_rows:
  assumes "findings_cursor ev (dr_gdb_location st @ ''/REVTABLEMAIN'')
             (''SESSIONID='' @ str_int sess_obj_id) = Inr []"
  shows "summarise_dr_output ev sess_obj_id st =
           (Ok (), st\<lparr>tmp_log := tmp_log st
              @ (if (\<exists>l\<in>set (tmp_log st). sublist ''Found'' l) then [] else [''No errors found.''])\<rparr>)"
proof -
  have "count_lines_with found_marker (tmp_log st) = 0 \<longleftrightarrow> \<not> (\<exists>l\<in>set (tmp_log st). sublist ''Found'' l)"
    by (simp add: count_lines_with_filter found_marker_def filter_empty_conv)
  then show ?thesis
    using assms
    by (simp add: summarise_dr_output_def summarise_rows_def log_line_def)
qed

theorem summarise_no_rows_witness:
  "findings_cursor demo_env (dr_gdb_location demo_state @ ''/REVTABLEMAIN'')
     (''SESSIONID='' @ str_int 7) = Inr []
   \<and> summarise_dr_output demo_env 7 demo_state =
       (Ok (), demo_state\<lparr>tmp_log := [''No errors found.'']\<rparr>)"
proof -
  have c: "findings_cursor demo_env (dr_gdb_location demo_state @ ''/REVTABLEMAIN'')
     (''SESSIONID='' @ str_int 7) = Inr []"
    by (simp add: demo_env_def)
  show ?thesis
    using summarise_no_rows [OF c] c by (simp add: demo_state_def)
qed

text \<open>
  The claim as stated fails when the log already holds a line with the marker, such as the
  warning that \<open>runDR\<close> logs for a rule file that was not found: no row is found and yet
  no "No errors found." line is written.
\<close>

theorem summarise_no_rows_counterexample:
  "findings_cursor demo_env
     (dr_gdb_location (demo_state\<lparr>tmp_log := [''Found execution error: File a.rbj not found.'']\<rparr>)
        @ ''/REVTABLEMAIN'') (''SESSIONID='' @ str_int 7) = Inr []
   \<and> summarise_dr_output demo_env 7
       (demo_state\<lparr>tmp_log := [''Found execution error: File a.rbj not found.'']\<rparr>) =
       (Ok (), demo_state\<lparr>tmp_log := [''Found execution error: File a.rbj not found.'']\<rparr>)"
  by (simp add: demo_env_def demo_state_def summarise_dr_output_def summarise_rows_def
        count_lines_with_def found_marker_def log_line_def)

subsection \<open>Sending the log by email\<close>

lemma smtp_session_tmp_log: "tmp_log (snd (smtp_session ev sender lst body st)) = tmp_log st"
  by (simp add: smtp_session_def emit_def Let_def split: option.splits)

lemma smtp_session_printed: "printed (snd (smtp_session ev sender lst body st)) = printed st"
  by (simp add: smtp_session_def emit_def Let_def split: option.splits)

lemma smtp_session_fails:
  "fst (smtp_session ev sender lst body st) = Some e \<longleftrightarrow>
     smtp_connect ev email_server = Some e
     \<or> smtp_connect ev email_server = None \<and> smtp_sendmail ev sender lst body = Some e
     \<or> smtp_connect ev email_server = None \<and> smtp_sendmail ev sender lst body = None
        \<and> smtp_quit ev = Some e"
  by (auto simp: smtp_session_def Let_def split: option.splits)

text \<open>
  C8. \<open>send_email\<close> never raises: it returns normally whatever the mail server does, it
  leaves the temporary log as it was, and when connecting, sending or quitting fails with
  an exception \<open>e\<close> it prints "Couldn't send email." and \<open>repr(e)\<close>.
\<close>

theorem send_email_swallows_transport_failure:
  "fst (send_email ev sender email_lst subject count_flag st) = Ok ()
   \<and> tmp_log (snd (send_email ev sender email_lst subject count_flag st)) = tmp_log st
   \<and> (fst (smtp_session ev sender email_lst
              (email_body sender email_lst subject count_flag (tmp_log st)) st) = Some e
        \<longrightarrow> printed (snd (send_email ev sender email_lst subject count_flag st)) =
              printed st @ [''Couldn't send email.'', exc_repr ev e])"
proof -
  obtain r st1 where s: "smtp_session ev sender email_lst
      (email_body sender email_lst subject count_flag (tmp_log st)) st = (r, st1)"
    by (cases "smtp_session ev sender email_lst
      (email_body sender email_lst subject count_flag (tmp_log st)) st")
  have l: "tmp_log st1 = tmp_log st" and p: "printed st1 = printed st"
    using smtp_session_tmp_log [of ev sender email_lst _ st]
      smtp_session_printed [of ev sender email_lst _ st] s
    by (metis snd_conv)+
  show ?thesis
    using s l p by (cases r) (simp_all add: send_email_def print_line_def)
qed

theorem send_email_swallows_transport_failure_witness:
  "fst (smtp_session (demo_env\<lparr>smtp_connect := (\<lambda>a. Some (OtherError ''refused''))\<rparr>)
          email_sender [''a@b.org'']
          (email_body email_sender [''a@b.org''] ''DRBot Run, x'' found_marker (tmp_log demo_state))
          demo_state) = Some (OtherError ''refused'')
   \<and> fst (send_email (demo_env\<lparr>smtp_connect := (\<lambda>a. Some (OtherError ''refused''))\<rparr>)
            email_sender [''a@b.org''] ''DRBot Run, x'' found_marker demo_state) = Ok ()
   \<and> printed (snd (send_email (demo_env\<lparr>smtp_connect := (\<lambda>a. Some (OtherError ''refused''))\<rparr>)
            email_sender [''a@b.org''] ''DRBot Run, x'' found_marker demo_state)) =
       [''Couldn't send email.'', ''refused'']
   \<and> tmp_log (snd (send_email (demo_env\<lparr>smtp_connect := (\<lambda>a. Some (OtherError ''refused''))\<rparr>)
            email_sender [''a@b.org''] ''DRBot Run, x'' found_marker demo_state)) = []"
proof -
  have f: "fst (smtp_session (demo_env\<lparr>smtp_connect := (\<lambda>a. Some (OtherError ''refused''))\<rparr>)
          email_sender [''a@b.org'']
          (email_body email_sender [''a@b.org''] ''DRBot Run, x'' found_marker (tmp_log demo_state))
          demo_state) = Some (OtherError ''refused'')"
    by (simp add: smtp_session_def)
  have r: "exc_repr demo_env (OtherError ''refused'') = ''refused''"
    by (simp add: demo_env_def)
  have p: "printed demo_state = []" and l: "tmp_log demo_state = []"
    by (simp_all add: demo_state_def)
  show ?thesis
    using send_email_swallows_transport_failure
      [of "demo_env\<lparr>smtp_connect := (\<lambda>a. Some (OtherError ''refused''))\<rparr>" email_sender
          "[''a@b.org'']" "''DRBot Run, x''" found_marker demo_state "OtherError ''refused''"]
      f
    by (simp add: r p l)
qed

subsection \<open>The workspace\<close>

lemma only_workspace_calls_iff:
  "only_workspace_calls xs ys = (\<exists>es. ys = xs @ es \<and> list_all is_workspace_event es)"
  by (auto simp: only_workspace_calls_def prefix_def)

lemma only_workspace_calls_refl: "only_workspace_calls xs xs"
  by (simp add: only_workspace_calls_def)

lemma only_workspace_calls_trans:
  "only_workspace_calls xs ys \<Longrightarrow> only_workspace_calls ys zs \<Longrightarrow> only_workspace_calls xs zs"
  by (auto simp: only_workspace_calls_iff)

lemma only_workspace_calls_snoc:
  "is_workspace_event e \<Longrightarrow> only_workspace_calls xs (xs @ [e])"
  by (simp add: only_workspace_calls_iff)

lemma create_empty_gdb_effects:
  "tmp_log (snd (create_empty_gdb ev st)) = tmp_log st
   \<and> only_workspace_calls (trace st) (trace (snd (create_empty_gdb ev st)))"
  by (simp add: create_empty_gdb_def emit_def Let_def only_workspace_calls_iff split: option.splits)

lemma copy_template_effects:
  "tmp_log (copy_template ev st) = tmp_log st
   \<and> only_workspace_calls (trace st) (trace (copy_template ev st))"
  by (simp add: copy_template_def emit_def set_msg_def Let_def only_workspace_calls_iff
        split: option.splits)

lemma make_dr_gdb_effects:
  "tmp_log (snd (make_dr_gdb ev st)) = tmp_log st
   \<and> only_workspace_calls (trace st) (trace (snd (make_dr_gdb ev st)))"
proof -
  define st2 where "st2 = copy_template ev (set_msg ''Making DR gdb...'' st)"
  define st3 where "st3 = set_msg ''Creating empty fgdb for DR...'' st2"
  have a: "tmp_log st2 = tmp_log st" "only_workspace_calls (trace st) (trace st2)"
    using copy_template_effects [of ev "set_msg ''Making DR gdb...'' st"]
    by (simp_all add: st2_def set_msg_def)
  have b: "tmp_log (snd (create_empty_gdb ev st3)) = tmp_log st"
    "only_workspace_calls (trace st) (trace (snd (create_empty_gdb ev st3)))"
    using create_empty_gdb_effects [of ev st3] a
    by (auto simp: st3_def set_msg_def intro: only_workspace_calls_trans)
  have m: "make_dr_gdb ev st =
      (if \<not> isdir st2 (dr_gdb_location st2)
       then (case create_empty_gdb ev st3 of
               (None, st4) \<Rightarrow> (None, st4)
             | (Some e, st4) \<Rightarrow> (Some 1, set_msg ''Couldn't create empty gdb for DR workspace.'' st4))
       else (None, st2))"
    by (simp add: make_dr_gdb_def st2_def st3_def Let_def)
  show ?thesis
  proof (cases "isdir st2 (dr_gdb_location st2)")
    case True
    then show ?thesis using a by (simp add: m)
  next
    case False
    obtain r st4 where c: "create_empty_gdb ev st3 = (r, st4)" by (cases "create_empty_gdb ev st3")
    with b have "tmp_log st4 = tmp_log st" "only_workspace_calls (trace st) (trace st4)" by simp_all
    with False c show ?thesis by (cases r) (simp_all add: m set_msg_def)
  qed
qed

lemma clean_dr_ws_absent:
  "\<not> isdir st (dr_gdb_location st) \<Longrightarrow>
   clean_dr_ws ev st = (None, st\<lparr>messages := messages st @ [''Cleaning up DR gdb...'']\<rparr>)"
  by (simp add: clean_dr_ws_def set_msg_def isdir_def)

lemma clean_dr_ws_deleted:
  "isdir st (dr_gdb_location st) \<Longrightarrow> rmtree ev (dr_gdb_location st) = None \<Longrightarrow>
   clean_dr_ws ev st =
     (None, snd (make_dr_gdb ev
        (st\<lparr>messages := messages st @ [''Cleaning up DR gdb...'',
                                        ''Deleting DR gdb '' @ dr_gdb_location st @ ''...''],
            trace := trace st @ [Rmtree (dr_gdb_location st)],
            dirs := removeAll (dr_gdb_location st) (dirs st)\<rparr>)))"
  by (simp add: clean_dr_ws_def set_msg_def emit_def isdir_def Let_def split_beta)

lemma clean_dr_ws_in_use:
  "isdir st (dr_gdb_location st) \<Longrightarrow> rmtree ev (dr_gdb_location st) = Some e \<Longrightarrow> arg0_is e 32 \<Longrightarrow>
   clean_dr_ws ev st =
     (Some 1,
      st\<lparr>messages := messages st @ [''Cleaning up DR gdb...'',
                                      ''Deleting DR gdb '' @ dr_gdb_location st @ ''...'',
                                      ''Failed to delete existing DR gdb.'',
                                      ''  '' @ arg1 e],
          trace := trace st @ [Rmtree (dr_gdb_location st)]\<rparr>)"
  by (simp add: clean_dr_ws_def set_msg_def emit_def isdir_def Let_def)

lemma clean_dr_ws_not_deleted:
  "isdir st (dr_gdb_location st) \<Longrightarrow> rmtree ev (dr_gdb_location st) = Some e \<Longrightarrow> \<not> arg0_is e 32 \<Longrightarrow>
   clean_dr_ws ev st =
     (None, snd (make_dr_gdb ev
        (st\<lparr>trace := trace st @ [Rmtree (dr_gdb_location st)],
            messages := messages st @ [''Cleaning up DR gdb...'',
                                        ''Deleting DR gdb '' @ dr_gdb_location st @ ''...'',
                                        ''Failed to delete existing DR gdb.'',
                                        ''Exception during DR workspace cleanup '' @ exc_str ev e,
                                        format_exc ev e]\<rparr>)))"
  by (simp add: clean_dr_ws_def set_msg_def emit_def isdir_def Let_def split_beta)

lemma make_dr_gdb_after_rmtree:
  assumes "tmp_log s = tmp_log st" and "trace s = trace st @ [Rmtree p]"
  shows "tmp_log (snd (make_dr_gdb ev s)) = tmp_log st
         \<and> only_workspace_calls (trace st) (trace (snd (make_dr_gdb ev s)))"
proof -
  have "only_workspace_calls (trace st) (trace s)"
    using assms by (simp add: only_workspace_calls_snoc)
  with make_dr_gdb_effects [of ev s] assms show ?thesis
    by (auto intro: only_workspace_calls_trans)
qed

lemma clean_dr_ws_effects:
  "tmp_log (snd (clean_dr_ws ev st)) = tmp_log st
   \<and> only_workspace_calls (trace st) (trace (snd (clean_dr_ws ev st)))"
proof (cases "isdir st (dr_gdb_location st)")
  case False
  then show ?thesis by (simp add: clean_dr_ws_absent only_workspace_calls_refl)
next
  case dir: True
  show ?thesis
  proof (cases "rmtree ev (dr_gdb_location st)")
    case None
    show ?thesis
      unfolding clean_dr_ws_deleted [OF dir None] snd_conv
      by (rule make_dr_gdb_after_rmtree) simp_all
  next
    case (Some e)
    show ?thesis
    proof (cases "arg0_is e 32")
      case True
      show ?thesis
        unfolding clean_dr_ws_in_use [OF dir Some True] snd_conv
        by (simp add: only_workspace_calls_snoc)
    next
      case False
      show ?thesis
        unfolding clean_dr_ws_not_deleted [OF dir Some False] snd_conv
        by (rule make_dr_gdb_after_rmtree) simp_all
    qed
  qed
qed















text \<open>
  C9 (amended). When the only argument of the command line is \<open>clean\<close>,
  \<open>run_from_sysargs\<close> calls \<open>clean_dr_ws\<close> and logs "Cleanup completed.", and nothing else:
  that line is the only one added to the log, and every outside call made is a call on
  the workspace directory, so no license is checked out, no rule file is run, and no log
  file or mail is written.
\<close>

theorem clean_mode_only_cleans:
  "run_from_sysargs ev def_rules [prog, ''clean''] st =
     (Ok (), log_msg ''Cleanup completed.'' (snd (clean_dr_ws ev st)))
   \<and> tmp_log (snd (run_from_sysargs ev def_rules [prog, ''clean''] st)) =
       tmp_log st @ [''Cleanup completed.'']
   \<and> only_workspace_calls (trace st) (trace (snd (run_from_sysargs ev def_rules [prog, ''clean''] st)))"
proof -
  have "run_from_sysargs ev def_rules [prog, ''clean''] st =
     (Ok (), log_msg ''Cleanup completed.'' (snd (clean_dr_ws ev st)))"
    by (simp add: run_from_sysargs_def split_beta)
  then show ?thesis
    using clean_dr_ws_effects [of ev st] by (simp add: log_msg_def log_line_def)
qed

subsection \<open>A run in the concrete world\<close>

lemma demo_prep_dr_ws:
  assumes "dirs s = []" and "dr_gdb_location s = ''drbot_test.gdb''"
    and "template_dr_gdb s = []" and "coord_sys s = ''4326''"
  shows "prep_dr_ws demo_env sn s =
    (Ok (), s\<lparr>messages := messages s @ [''Preparing Data Reviewer Session...'', ''Making DR gdb...'',
                    ''Creating empty fgdb for DR...'', ''    Database: drbot_test.gdb''],
              trace := trace s @ [CreateFileGDB [] ''drbot_test.gdb'',
                    EnableDataReviewer ''drbot_test.gdb'' ''4326'',
                    CreateReviewerSession ''drbot_test.gdb'' sn (Some ''Session 1 : empty'')],
              dirs := [''drbot_test.gdb'']\<rparr>)"
  using assms
  by (simp add: prep_dr_ws_def make_dr_gdb_def copy_template_def create_empty_gdb_def set_msg_def
        emit_def isdir_def demo_env_def nt_dirname_def nt_basename_def nt_join_def rfind_def Let_def)

lemma demo_exec_one:
  "exec_rules demo_env sid [rf] s =
    (Ok (), s\<lparr>messages := messages s @ [''  Checking file: '' @ rf],
              printed := printed s @ [''Rules: '' @ rf],
              trace := trace s @ [ExecuteReviewerBatchJob (dr_gdb_location s) sid rf (db s)]\<rparr>)"
  by (simp add: set_msg_def print_line_def emit_def demo_env_def Let_def)

lemma demo_summarise:
  "list_all (\<lambda>l. \<not> sublist ''Found'' l) (tmp_log s) \<Longrightarrow>
   summarise_dr_output demo_env n s = (Ok (), s\<lparr>tmp_log := tmp_log s @ [''No errors found.'']\<rparr>)"
  by (simp add: summarise_dr_output_def summarise_rows_def demo_env_def count_lines_with_filter
        found_marker_def log_line_def filter_empty_conv list_all_iff)


lemma str_int_7: "str_int 7 = ''7''"
  by (simp add: str_int_def str_nat.simps digit_char_def)

lemma demo_dr_body:
  assumes "dirs s = []" and "dr_gdb_location s = ''drbot_test.gdb''"
    and "template_dr_gdb s = []" and "coord_sys s = ''4326''" and "db s = ''testdata.gdb''"
    and "list_all (\<lambda>l. \<not> sublist ''Found'' l) (tmp_log s)"
  shows "dr_body demo_env (Some [rf]) sn s =
    (Ok (), s\<lparr>tmp_log := tmp_log s @ [''Checking testdata.gdb'',
                    ''Errors will be written to drbot_test.gdb'', ''No errors found.''],
              messages := messages s @ [''Preparing Data Reviewer Session...'', ''Making DR gdb...'',
                    ''Creating empty fgdb for DR...'', ''    Database: drbot_test.gdb'',
                    ''  Created session:'' @ [CHR 0x0A] @ ''    Session 7 : '' @ sn,
                    ''  Checking file: '' @ rf,
                    ''Checks completed, summarising output.'' @ [CHR 0x0A, CHR 0x0A]],
              printed := printed s @ [''Rules: '' @ rf],
              trace := trace s @ [CreateFileGDB [] ''drbot_test.gdb'',
                    EnableDataReviewer ''drbot_test.gdb'' ''4326'',
                    CreateReviewerSession ''drbot_test.gdb'' sn (Some ''Session 1 : empty''),
                    ExecuteReviewerBatchJob ''drbot_test.gdb'' (''Session 7 : '' @ sn) rf ''testdata.gdb''],
              dirs := [''drbot_test.gdb'']\<rparr>)"
proof -
  have sc: "session_cursor demo_env a b = Inr [7]" for a b
    by (simp add: demo_env_def)
  show ?thesis
    using assms
    by (simp add: dr_body_def open_session_def demo_prep_dr_ws sc str_int_7 demo_exec_one demo_summarise
          set_msg_def log_msg_def log_line_def Let_def sublist_code del: exec_rules.simps)
qed


lemma demo_runDR_clean:
  "runDR demo_env ''clean'' ''log.txt'' demo_state =
    (Ok None,
     demo_state\<lparr>tmp_log := [''Start time: 2017-01-01 12:00:00.000000'',
        ''Checking testdata.gdb'',
        ''Errors will be written to drbot_test.gdb'', ''No errors found.'',
        ''Done'', [CHR 0x0A] @ ''Total drbot.py duration (h:mm:ss.dd): 0:00:01.000''],
     messages :=
       [''Loading rule file(s) from clean...'',
        ''Preparing Data Reviewer Session...'', ''Making DR gdb...'',
        ''Creating empty fgdb for DR...'', ''    Database: drbot_test.gdb'',
        ''  Created session:'' @ [CHR 0x0A] @ ''    Session 7 : log.txt'',
        ''  Checking file: clean'',
        ''Checks completed, summarising output.'' @ [CHR 0x0A, CHR 0x0A]],
     printed := [''Rules: clean''], dirs := [''drbot_test.gdb''],
     trace :=
       [CheckOutExtension ''datareviewer'',
        CreateFileGDB [] ''drbot_test.gdb'',
        EnableDataReviewer ''drbot_test.gdb'' ''4326'',
        CreateReviewerSession ''drbot_test.gdb'' ''log.txt'' (Some ''Session 1 : empty''),
        ExecuteReviewerBatchJob ''drbot_test.gdb'' ''Session 7 : log.txt'' ''clean'' ''testdata.gdb'',
        CheckInExtension ''datareviewer'']\<rparr>)"
proof -
  define s where "s = demo_state\<lparr>tmp_log := [''Start time: 2017-01-01 12:00:00.000000''],
     messages := [''Loading rule file(s) from clean...''],
     trace := [CheckOutExtension ''datareviewer'']\<rparr>"
  have ld: "load_rules demo_env ''clean'' s = (Loaded [''clean''], s)"
    by (simp add: load_rules_def sublist_code)
  have body: "dr_body demo_env (Some [''clean'']) ''log.txt'' s = (Ok (), s\<lparr>tmp_log := tmp_log s @ [''Checking testdata.gdb'',
                    ''Errors will be written to drbot_test.gdb'', ''No errors found.''],
              messages := messages s @ [''Preparing Data Reviewer Session...'', ''Making DR gdb...'',
                    ''Creating empty fgdb for DR...'', ''    Database: drbot_test.gdb'',
                    ''  Created session:'' @ [CHR 0x0A] @ ''    Session 7 : '' @ ''log.txt'',
                    ''  Checking file: '' @ ''clean'',
                    ''Checks completed, summarising output.'' @ [CHR 0x0A, CHR 0x0A]],
              printed := printed s @ [''Rules: '' @ ''clean''],
              trace := trace s @ [CreateFileGDB [] ''drbot_test.gdb'',
                    EnableDataReviewer ''drbot_test.gdb'' ''4326'',
                    CreateReviewerSession ''drbot_test.gdb'' ''log.txt'' (Some ''Session 1 : empty''),
                    ExecuteReviewerBatchJob ''drbot_test.gdb'' (''Session 7 : '' @ ''log.txt'') ''clean'' ''testdata.gdb''],
              dirs := [''drbot_test.gdb'']\<rparr>)"
    by (rule demo_dr_body) (simp_all add: s_def demo_state_def sublist_code)
  have "runDR demo_env ''clean'' ''log.txt'' demo_state =
          (Ok None, run_checks demo_env (Some [''clean'']) ''log.txt'' s)"
    using ld by (simp add: runDR_def s_def log_msg_def log_line_def emit_def set_msg_def demo_env_def
          demo_state_def Let_def)
  then show ?thesis
    by (simp add: run_checks_def body emit_def log_msg_def log_line_def Let_def)
      (simp add: s_def demo_state_def demo_env_def)
qed


lemma jobs_prep_dr_ws:
  assumes "dirs s = []" and "dr_gdb_location s = ''drbot_test.gdb''"
    and "template_dr_gdb s = []" and "coord_sys s = ''4326''"
  shows "prep_dr_ws (demo_env\<lparr>execute_batch_job := j\<rparr>) sn s =
    (Ok (), s\<lparr>messages := messages s @ [''Preparing Data Reviewer Session...'', ''Making DR gdb...'',
                    ''Creating empty fgdb for DR...'', ''    Database: drbot_test.gdb''],
              trace := trace s @ [CreateFileGDB [] ''drbot_test.gdb'',
                    EnableDataReviewer ''drbot_test.gdb'' ''4326'',
                    CreateReviewerSession ''drbot_test.gdb'' sn (Some ''Session 1 : empty'')],
              dirs := [''drbot_test.gdb'']\<rparr>)"
  using assms
  by (simp add: prep_dr_ws_def make_dr_gdb_def copy_template_def create_empty_gdb_def set_msg_def
        emit_def isdir_def demo_env_def nt_dirname_def nt_basename_def nt_join_def rfind_def Let_def)

lemma jobs_open_session:
  assumes "dirs s = []" and "dr_gdb_location s = ''drbot_test.gdb''"
    and "template_dr_gdb s = []" and "coord_sys s = ''4326''" and "db s = ''testdata.gdb''"
  shows "open_session (demo_env\<lparr>execute_batch_job := j\<rparr>) sn s =
    (Ok (7, ''Session 7 : '' @ sn),
     s\<lparr>tmp_log := tmp_log s @ [''Checking testdata.gdb'', ''Errors will be written to drbot_test.gdb''],
       messages := messages s @ [''Preparing Data Reviewer Session...'', ''Making DR gdb...'',
                    ''Creating empty fgdb for DR...'', ''    Database: drbot_test.gdb'',
                    ''  Created session:'' @ [CHR 0x0A] @ ''    Session 7 : '' @ sn],
       trace := trace s @ [CreateFileGDB [] ''drbot_test.gdb'',
                    EnableDataReviewer ''drbot_test.gdb'' ''4326'',
                    CreateReviewerSession ''drbot_test.gdb'' sn (Some ''Session 1 : empty'')],
       dirs := [''drbot_test.gdb'']\<rparr>)"
proof -
  have sc: "session_cursor demo_env a b = Inr [7]" for a b
    by (simp add: demo_env_def)
  show ?thesis
    using assms
    by (simp add: open_session_def jobs_prep_dr_ws sc str_int_7 set_msg_def log_msg_def log_line_def Let_def)
qed

text \<open>
  The first argument is \<open>clean\<close> and a second argument names a log file: the run is an
  ordinary one with \<open>clean\<close> as its rule file. The license is checked out, the batch job
  is run and the log file is written.
\<close>

theorem clean_with_logfile_counterexample:
  "trace (snd (run_from_sysargs demo_env ''rules.txt'' [''drbot.py'', ''clean'', ''log.txt''] demo_state)) =
     [CheckOutExtension ''datareviewer'',
      CreateFileGDB [] ''drbot_test.gdb'',
      EnableDataReviewer ''drbot_test.gdb'' ''4326'',
      CreateReviewerSession ''drbot_test.gdb'' ''log.txt'' (Some ''Session 1 : empty''),
      ExecuteReviewerBatchJob ''drbot_test.gdb'' ''Session 7 : log.txt'' ''clean'' ''testdata.gdb'',
      CheckInExtension ''datareviewer'',
      WriteFile ''log.txt''
        [''Start time: 2017-01-01 12:00:00.000000'' @ [CHR 0x0A],
         ''Checking testdata.gdb'' @ [CHR 0x0A],
         ''Errors will be written to drbot_test.gdb'' @ [CHR 0x0A],
         ''No errors found.'' @ [CHR 0x0A],
         ''Done'' @ [CHR 0x0A],
         [CHR 0x0A] @ ''Total drbot.py duration (h:mm:ss.dd): 0:00:01.000'' @ [CHR 0x0A]]]
   \<and> \<not> only_workspace_calls (trace demo_state)
         (trace (snd (run_from_sysargs demo_env ''rules.txt'' [''drbot.py'', ''clean'', ''log.txt''] demo_state)))"
proof -
  have sess: "drop (nat (1 + rfind (CHR 0x5C) ''log.txt'')) ''log.txt'' = ''log.txt''"
    by (simp add: rfind_def)
  have "trace (snd (run_from_sysargs demo_env ''rules.txt'' [''drbot.py'', ''clean'', ''log.txt''] demo_state)) =
     [CheckOutExtension ''datareviewer'',
      CreateFileGDB [] ''drbot_test.gdb'',
      EnableDataReviewer ''drbot_test.gdb'' ''4326'',
      CreateReviewerSession ''drbot_test.gdb'' ''log.txt'' (Some ''Session 1 : empty''),
      ExecuteReviewerBatchJob ''drbot_test.gdb'' ''Session 7 : log.txt'' ''clean'' ''testdata.gdb'',
      CheckInExtension ''datareviewer'',
      WriteFile ''log.txt''
        [''Start time: 2017-01-01 12:00:00.000000'' @ [CHR 0x0A],
         ''Checking testdata.gdb'' @ [CHR 0x0A],
         ''Errors will be written to drbot_test.gdb'' @ [CHR 0x0A],
         ''No errors found.'' @ [CHR 0x0A],
         ''Done'' @ [CHR 0x0A],
         [CHR 0x0A] @ ''Total drbot.py duration (h:mm:ss.dd): 0:00:01.000'' @ [CHR 0x0A]]]"
    by (simp add: run_from_sysargs_def sess demo_runDR_clean report_output_def write_to_file_def
          emit_def Let_def)
      (simp add: demo_env_def demo_state_def emit_def)
  then show ?thesis
    by (simp add: only_workspace_calls_def demo_state_def)
qed

subsection \<open>The error code of an engine error\<close>

lemma match_here_lit:
  "match_here (lit ch # rest) s g =
     (case s of [] \<Rightarrow> None | x # xs \<Rightarrow> if x = ch then match_here rest xs g else None)"
  by (cases s) (simp_all add: lit_def grp_def)

lemma match_here_Plus:
  "match_here ((p, Plus, c) # rest) s g =
     (case s of [] \<Rightarrow> None
      | x # xs \<Rightarrow> if p x then match_here ((p, Star, c) # rest) xs (grp c g x) else None)"
  by (cases s) simp_all

lemma colon_no_digit: "\<not> is_digit CHR '':''"
  by (simp add: is_digit_def)

lemma zero_not_nonzero: "\<not> is_nonzero_digit CHR ''0''"
  by (simp add: is_nonzero_digit_def)

lemma nonzero_is_digit: "is_nonzero_digit x \<Longrightarrow> is_digit x"
  by (auto simp: is_nonzero_digit_def is_digit_def)

lemma digits_then_colon:
  "match_here [(is_digit, Star, True), lit CHR '':''] s g = Some r \<longleftrightarrow>
     (\<exists>ds post. s = ds @ CHR '':'' # post \<and> list_all is_digit ds \<and> r = g @ ds)"
proof (induction s arbitrary: g)
  case Nil
  then show ?case by (simp add: match_here_lit)
next
  case (Cons x xs)
  show ?case
  proof (cases "is_digit x")
    case True
    then have ne: "x \<noteq> CHR '':''" using colon_no_digit by auto
    have "match_here [(is_digit, Star, True), lit CHR '':''] (x # xs) g = Some r \<longleftrightarrow>
          match_here [(is_digit, Star, True), lit CHR '':''] xs (g @ [x]) = Some r"
      using True ne by (simp add: match_here_lit grp_def split: option.splits)
    also have "\<dots> \<longleftrightarrow> (\<exists>ds post. xs = ds @ CHR '':'' # post \<and> list_all is_digit ds \<and> r = (g @ [x]) @ ds)"
      by (rule Cons.IH)
    also have "\<dots> \<longleftrightarrow> (\<exists>ds post. x # xs = ds @ CHR '':'' # post \<and> list_all is_digit ds \<and> r = g @ ds)"
    proof
      assume "\<exists>ds post. xs = ds @ CHR '':'' # post \<and> list_all is_digit ds \<and> r = (g @ [x]) @ ds"
      then obtain ds post where "xs = ds @ CHR '':'' # post" "list_all is_digit ds" "r = (g @ [x]) @ ds"
        by blast
      with True have "x # xs = (x # ds) @ CHR '':'' # post \<and> list_all is_digit (x # ds) \<and> r = g @ (x # ds)"
        by simp
      then show "\<exists>ds post. x # xs = ds @ CHR '':'' # post \<and> list_all is_digit ds \<and> r = g @ ds"
        by blast
    next
      assume "\<exists>ds post. x # xs = ds @ CHR '':'' # post \<and> list_all is_digit ds \<and> r = g @ ds"
      then obtain ds post where d: "x # xs = ds @ CHR '':'' # post" "list_all is_digit ds" "r = g @ ds"
        by blast
      from d(1) ne obtain ds' where "ds = x # ds'" by (cases ds) auto
      with d have "xs = ds' @ CHR '':'' # post \<and> list_all is_digit ds' \<and> r = (g @ [x]) @ ds'" by simp
      then show "\<exists>ds post. xs = ds @ CHR '':'' # post \<and> list_all is_digit ds \<and> r = (g @ [x]) @ ds"
        by blast
    qed
    finally show ?thesis .
  next
    case False
    have "match_here [(is_digit, Star, True), lit CHR '':''] (x # xs) g = Some r \<longleftrightarrow>
          (x = CHR '':'' \<and> r = g)"
      using False by (auto simp: match_here_lit)
    also have "\<dots> \<longleftrightarrow> (\<exists>ds post. x # xs = ds @ CHR '':'' # post \<and> list_all is_digit ds \<and> r = g @ ds)"
    proof
      assume "x = CHR '':'' \<and> r = g"
      then have "x # xs = [] @ CHR '':'' # xs \<and> list_all is_digit [] \<and> r = g @ []" by simp
      then show "\<exists>ds post. x # xs = ds @ CHR '':'' # post \<and> list_all is_digit ds \<and> r = g @ ds"
        by blast
    next
      assume "\<exists>ds post. x # xs = ds @ CHR '':'' # post \<and> list_all is_digit ds \<and> r = g @ ds"
      then obtain ds post where d: "x # xs = ds @ CHR '':'' # post" "list_all is_digit ds" "r = g @ ds"
        by blast
      from d(1,2) False have "ds = []" by (cases ds) auto
      with d show "x = CHR '':'' \<and> r = g" by simp
    qed
    finally show ?thesis .
  qed
qed


lemma zeros_then_code:
  "match_here [((\<lambda>x. x = CHR ''0''), Star, False), (is_nonzero_digit, Once, True),
               (is_digit, Star, True), lit CHR '':''] s g = Some r \<longleftrightarrow>
     (\<exists>zs d ds post. s = zs @ d # ds @ CHR '':'' # post \<and> set zs \<subseteq> {CHR ''0''}
        \<and> is_nonzero_digit d \<and> list_all is_digit ds \<and> r = g @ d # ds)"
proof (induction s arbitrary: g)
  case Nil
  then show ?case by simp
next
  case (Cons x xs)
  show ?case
  proof (cases "x = CHR ''0''")
    case True
    have "match_here [((\<lambda>x. x = CHR ''0''), Star, False), (is_nonzero_digit, Once, True),
               (is_digit, Star, True), lit CHR '':''] (x # xs) g = Some r \<longleftrightarrow>
          match_here [((\<lambda>x. x = CHR ''0''), Star, False), (is_nonzero_digit, Once, True),
               (is_digit, Star, True), lit CHR '':''] xs g = Some r"
      using True zero_not_nonzero by (simp add: grp_def split: option.splits)
    also have "\<dots> \<longleftrightarrow> (\<exists>zs d ds post. xs = zs @ d # ds @ CHR '':'' # post \<and> set zs \<subseteq> {CHR ''0''}
        \<and> is_nonzero_digit d \<and> list_all is_digit ds \<and> r = g @ d # ds)"
      by (rule Cons.IH)
    also have "\<dots> \<longleftrightarrow> (\<exists>zs d ds post. x # xs = zs @ d # ds @ CHR '':'' # post \<and> set zs \<subseteq> {CHR ''0''}
        \<and> is_nonzero_digit d \<and> list_all is_digit ds \<and> r = g @ d # ds)"
    proof
      assume "\<exists>zs d ds post. xs = zs @ d # ds @ CHR '':'' # post \<and> set zs \<subseteq> {CHR ''0''}
        \<and> is_nonzero_digit d \<and> list_all is_digit ds \<and> r = g @ d # ds"
      then obtain zs d ds post where "xs = zs @ d # ds @ CHR '':'' # post" "set zs \<subseteq> {CHR ''0''}"
        "is_nonzero_digit d" "list_all is_digit ds" "r = g @ d # ds" by blast
      with True have "x # xs = (x # zs) @ d # ds @ CHR '':'' # post \<and> set (x # zs) \<subseteq> {CHR ''0''}
        \<and> is_nonzero_digit d \<and> list_all is_digit ds \<and> r = g @ d # ds" by simp
      then show "\<exists>zs d ds post. x # xs = zs @ d # ds @ CHR '':'' # post \<and> set zs \<subseteq> {CHR ''0''}
        \<and> is_nonzero_digit d \<and> list_all is_digit ds \<and> r = g @ d # ds" by blast
    next
      assume "\<exists>zs d ds post. x # xs = zs @ d # ds @ CHR '':'' # post \<and> set zs \<subseteq> {CHR ''0''}
        \<and> is_nonzero_digit d \<and> list_all is_digit ds \<and> r = g @ d # ds"
      then obtain zs d ds post where d: "x # xs = zs @ d # ds @ CHR '':'' # post" "set zs \<subseteq> {CHR ''0''}"
        "is_nonzero_digit d" "list_all is_digit ds" "r = g @ d # ds" by blast
      from d(1,3) True zero_not_nonzero obtain zs' where "zs = x # zs'" by (cases zs) auto
      with d have "xs = zs' @ d # ds @ CHR '':'' # post \<and> set zs' \<subseteq> {CHR ''0''}
        \<and> is_nonzero_digit d \<and> list_all is_digit ds \<and> r = g @ d # ds" by simp
      then show "\<exists>zs d ds post. xs = zs @ d # ds @ CHR '':'' # post \<and> set zs \<subseteq> {CHR ''0''}
        \<and> is_nonzero_digit d \<and> list_all is_digit ds \<and> r = g @ d # ds" by blast
    qed
    finally show ?thesis .
  next
    case False
    have "match_here [((\<lambda>x. x = CHR ''0''), Star, False), (is_nonzero_digit, Once, True),
               (is_digit, Star, True), lit CHR '':''] (x # xs) g = Some r \<longleftrightarrow>
          (is_nonzero_digit x \<and> match_here [(is_digit, Star, True), lit CHR '':''] xs (g @ [x]) = Some r)"
      using False by (simp add: grp_def)
    also have "\<dots> \<longleftrightarrow> (is_nonzero_digit x \<and>
        (\<exists>ds post. xs = ds @ CHR '':'' # post \<and> list_all is_digit ds \<and> r = (g @ [x]) @ ds))"
      by (simp only: digits_then_colon)
    also have "\<dots> \<longleftrightarrow> (\<exists>zs d ds post. x # xs = zs @ d # ds @ CHR '':'' # post \<and> set zs \<subseteq> {CHR ''0''}
        \<and> is_nonzero_digit d \<and> list_all is_digit ds \<and> r = g @ d # ds)"
    proof
      assume "is_nonzero_digit x \<and>
        (\<exists>ds post. xs = ds @ CHR '':'' # post \<and> list_all is_digit ds \<and> r = (g @ [x]) @ ds)"
      then obtain ds post where "is_nonzero_digit x" "xs = ds @ CHR '':'' # post" "list_all is_digit ds"
        "r = (g @ [x]) @ ds" by blast
      then have "x # xs = [] @ x # ds @ CHR '':'' # post \<and> set [] \<subseteq> {CHR ''0''}
        \<and> is_nonzero_digit x \<and> list_all is_digit ds \<and> r = g @ x # ds" by simp
      then show "\<exists>zs d ds post. x # xs = zs @ d # ds @ CHR '':'' # post \<and> set zs \<subseteq> {CHR ''0''}
        \<and> is_nonzero_digit d \<and> list_all is_digit ds \<and> r = g @ d # ds" by blast
    next
      assume "\<exists>zs d ds post. x # xs = zs @ d # ds @ CHR '':'' # post \<and> set zs \<subseteq> {CHR ''0''}
        \<and> is_nonzero_digit d \<and> list_all is_digit ds \<and> r = g @ d # ds"
      then obtain zs d ds post where d: "x # xs = zs @ d # ds @ CHR '':'' # post" "set zs \<subseteq> {CHR ''0''}"
        "is_nonzero_digit d" "list_all is_digit ds" "r = g @ d # ds" by blast
      from d(1,2) False have "zs = []" by (cases zs) auto
      with d have "is_nonzero_digit x" "xs = ds @ CHR '':'' # post" "r = (g @ [x]) @ ds" by simp_all
      with d(4) show "is_nonzero_digit x \<and>
        (\<exists>ds post. xs = ds @ CHR '':'' # post \<and> list_all is_digit ds \<and> r = (g @ [x]) @ ds)"
        by blast
    qed
    finally show ?thesis .
  qed
qed

lemma pattern_at:
  "match_here arc_error_pattern s [] = Some r \<longleftrightarrow>
     (\<exists>zs d ds post. s = ''ERROR '' @ zs @ d # ds @ CHR '':'' # post \<and> zs \<noteq> []
        \<and> set zs \<subseteq> {CHR ''0''} \<and> is_nonzero_digit d \<and> list_all is_digit ds \<and> r = d # ds)"
proof
  assume m: "match_here arc_error_pattern s [] = Some r"
  then obtain t where s: "s = ''ERROR '' @ CHR ''0'' # t"
    and z: "match_here [((\<lambda>x. x = CHR ''0''), Star, False), (is_nonzero_digit, Once, True),
               (is_digit, Star, True), lit CHR '':''] t [] = Some r"
    by (auto simp: arc_error_pattern_def match_here_lit match_here_Plus grp_def
          split: list.splits if_splits)
  from z obtain zs d ds post where "t = zs @ d # ds @ CHR '':'' # post" "set zs \<subseteq> {CHR ''0''}"
        "is_nonzero_digit d" "list_all is_digit ds" "r = d # ds"
    unfolding zeros_then_code by auto
  with s have "s = ''ERROR '' @ (CHR ''0'' # zs) @ d # ds @ CHR '':'' # post \<and> CHR ''0'' # zs \<noteq> []
        \<and> set (CHR ''0'' # zs) \<subseteq> {CHR ''0''} \<and> is_nonzero_digit d \<and> list_all is_digit ds \<and> r = d # ds"
    by simp
  then show "\<exists>zs d ds post. s = ''ERROR '' @ zs @ d # ds @ CHR '':'' # post \<and> zs \<noteq> []
        \<and> set zs \<subseteq> {CHR ''0''} \<and> is_nonzero_digit d \<and> list_all is_digit ds \<and> r = d # ds"
    by blast
next
  assume "\<exists>zs d ds post. s = ''ERROR '' @ zs @ d # ds @ CHR '':'' # post \<and> zs \<noteq> []
        \<and> set zs \<subseteq> {CHR ''0''} \<and> is_nonzero_digit d \<and> list_all is_digit ds \<and> r = d # ds"
  then obtain zs d ds post where d: "s = ''ERROR '' @ zs @ d # ds @ CHR '':'' # post" "zs \<noteq> []"
        "set zs \<subseteq> {CHR ''0''}" "is_nonzero_digit d" "list_all is_digit ds" "r = d # ds" by blast
  from d(2,3) obtain zs' where zs: "zs = CHR ''0'' # zs'" "set zs' \<subseteq> {CHR ''0''}" by (cases zs) auto
  have "match_here [((\<lambda>x. x = CHR ''0''), Star, False), (is_nonzero_digit, Once, True),
               (is_digit, Star, True), lit CHR '':''] (zs' @ d # ds @ CHR '':'' # post) [] = Some r"
    unfolding zeros_then_code using zs(2) d(4,5,6) by auto
  then show "match_here arc_error_pattern s [] = Some r"
    by (simp add: d(1) zs(1) arc_error_pattern_def match_here_lit match_here_Plus grp_def)
qed


lemma re_search_Some_iff:
  "re_search pat s = Some g \<longleftrightarrow>
     (\<exists>pre suf. s = pre @ suf \<and> match_here pat suf [] = Some g
        \<and> (\<forall>pre' suf'. s = pre' @ suf' \<and> length pre' < length pre \<longrightarrow> match_here pat suf' [] = None))"
proof (induction s)
  case Nil
  then show ?case by simp
next
  case (Cons x xs)
  show ?case
  proof (cases "match_here pat (x # xs) []")
    case (Some g')
    have first: "\<forall>pre' suf'. x # xs = pre' @ suf' \<and> length pre' < length ([] :: string)
                   \<longrightarrow> match_here pat suf' [] = None" by simp
    show ?thesis
    proof
      assume "re_search pat (x # xs) = Some g"
      with Some have "g = g'" by simp
      with Some first have "x # xs = [] @ (x # xs) \<and> match_here pat (x # xs) [] = Some g
        \<and> (\<forall>pre' suf'. x # xs = pre' @ suf' \<and> length pre' < length ([] :: string)
               \<longrightarrow> match_here pat suf' [] = None)" by simp
      then show "\<exists>pre suf. x # xs = pre @ suf \<and> match_here pat suf [] = Some g
        \<and> (\<forall>pre' suf'. x # xs = pre' @ suf' \<and> length pre' < length pre \<longrightarrow> match_here pat suf' [] = None)"
        by blast
    next
      assume "\<exists>pre suf. x # xs = pre @ suf \<and> match_here pat suf [] = Some g
        \<and> (\<forall>pre' suf'. x # xs = pre' @ suf' \<and> length pre' < length pre \<longrightarrow> match_here pat suf' [] = None)"
      then obtain pre suf where d: "x # xs = pre @ suf" "match_here pat suf [] = Some g"
        and least: "\<forall>pre' suf'. x # xs = pre' @ suf' \<and> length pre' < length pre
                      \<longrightarrow> match_here pat suf' [] = None" by blast
      have "pre = []"
      proof (rule ccontr)
        assume "pre \<noteq> []"
        with least have "match_here pat (x # xs) [] = None" by (auto dest: spec [where x = "[]"])
        with Some show False by simp
      qed
      with d have "suf = x # xs" by simp
      with d(2) show "re_search pat (x # xs) = Some g" by simp
    qed
  next
    case None
    have "re_search pat (x # xs) = Some g \<longleftrightarrow> re_search pat xs = Some g"
      using None by simp
    also have "\<dots> \<longleftrightarrow> (\<exists>pre suf. xs = pre @ suf \<and> match_here pat suf [] = Some g
        \<and> (\<forall>pre' suf'. xs = pre' @ suf' \<and> length pre' < length pre \<longrightarrow> match_here pat suf' [] = None))"
      by (rule Cons.IH)
    also have "\<dots> \<longleftrightarrow> (\<exists>pre suf. x # xs = pre @ suf \<and> match_here pat suf [] = Some g
        \<and> (\<forall>pre' suf'. x # xs = pre' @ suf' \<and> length pre' < length pre \<longrightarrow> match_here pat suf' [] = None))"
    proof
      assume "\<exists>pre suf. xs = pre @ suf \<and> match_here pat suf [] = Some g
        \<and> (\<forall>pre' suf'. xs = pre' @ suf' \<and> length pre' < length pre \<longrightarrow> match_here pat suf' [] = None)"
      then obtain pre suf where d: "xs = pre @ suf" "match_here pat suf [] = Some g"
        and least: "\<And>pre' suf'. xs = pre' @ suf' \<Longrightarrow> length pre' < length pre
                      \<Longrightarrow> match_here pat suf' [] = None" by blast
      have "match_here pat suf' [] = None"
        if "x # xs = pre' @ suf'" "length pre' < length (x # pre)" for pre' suf'
      proof (cases pre')
        case Nil
        with that None show ?thesis by simp
      next
        case (Cons y p)
        with that have "xs = p @ suf'" "length p < length pre" by simp_all
        then show ?thesis by (rule least)
      qed
      with d have "x # xs = (x # pre) @ suf \<and> match_here pat suf [] = Some g
        \<and> (\<forall>pre' suf'. x # xs = pre' @ suf' \<and> length pre' < length (x # pre)
               \<longrightarrow> match_here pat suf' [] = None)" by simp
      then show "\<exists>pre suf. x # xs = pre @ suf \<and> match_here pat suf [] = Some g
        \<and> (\<forall>pre' suf'. x # xs = pre' @ suf' \<and> length pre' < length pre \<longrightarrow> match_here pat suf' [] = None)"
        by blast
    next
      assume "\<exists>pre suf. x # xs = pre @ suf \<and> match_here pat suf [] = Some g
        \<and> (\<forall>pre' suf'. x # xs = pre' @ suf' \<and> length pre' < length pre \<longrightarrow> match_here pat suf' [] = None)"
      then obtain pre suf where d: "x # xs = pre @ suf" "match_here pat suf [] = Some g"
        and least: "\<And>pre' suf'. x # xs = pre' @ suf' \<Longrightarrow> length pre' < length pre
                      \<Longrightarrow> match_here pat suf' [] = None" by blast
      from d None obtain p where p: "pre = x # p" "xs = p @ suf" by (cases pre) auto
      have "match_here pat suf' [] = None" if "xs = p' @ suf'" "length p' < length p" for p' suf'
        using least [of "x # p'" suf'] that p by simp
      with p d(2) have "xs = p @ suf \<and> match_here pat suf [] = Some g
        \<and> (\<forall>pre' suf'. xs = pre' @ suf' \<and> length pre' < length p \<longrightarrow> match_here pat suf' [] = None)"
        by simp
      then show "\<exists>pre suf. xs = pre @ suf \<and> match_here pat suf [] = Some g
        \<and> (\<forall>pre' suf'. xs = pre' @ suf' \<and> length pre' < length pre \<longrightarrow> match_here pat suf' [] = None)"
        by blast
    qed
    finally show ?thesis .
  qed
qed

lemma re_search_None_iff:
  "re_search pat s = None \<longleftrightarrow> (\<forall>pre suf. s = pre @ suf \<longrightarrow> match_here pat suf [] = None)"
proof (induction s)
  case Nil
  then show ?case by simp
next
  case (Cons x xs)
  have "re_search pat (x # xs) = None \<longleftrightarrow>
        match_here pat (x # xs) [] = None \<and> re_search pat xs = None"
    by (simp split: option.splits)
  also have "\<dots> \<longleftrightarrow> match_here pat (x # xs) [] = None
      \<and> (\<forall>pre suf. xs = pre @ suf \<longrightarrow> match_here pat suf [] = None)"
    by (simp only: Cons.IH)
  also have "\<dots> \<longleftrightarrow> (\<forall>pre suf. x # xs = pre @ suf \<longrightarrow> match_here pat suf [] = None)"
    by (auto simp: Cons_eq_append_conv)
  finally show ?case .
qed

lemma digit_val_digit: "is_digit x \<Longrightarrow> 0 \<le> digit_val x"
  by (auto simp: is_digit_def digit_val_def)

lemma digit_val_nonzero: "is_nonzero_digit x \<Longrightarrow> 0 < digit_val x"
  by (auto simp: is_nonzero_digit_def digit_val_def)

lemma foldl_digits_mono:
  "list_all is_digit ds \<Longrightarrow> 0 \<le> a \<Longrightarrow> a \<le> foldl (\<lambda>a x. 10 * a + digit_val x) a ds"
proof (induction ds arbitrary: a)
  case Nil
  then show ?case by simp
next
  case (Cons x xs)
  then have "0 \<le> digit_val x" by (simp add: digit_val_digit)
  with Cons.prems have "a \<le> 10 * a + digit_val x" "0 \<le> 10 * a + digit_val x" by simp_all
  moreover have "10 * a + digit_val x \<le> foldl (\<lambda>a x. 10 * a + digit_val x) (10 * a + digit_val x) xs"
    using Cons.IH [of "10 * a + digit_val x"] Cons.prems \<open>0 \<le> 10 * a + digit_val x\<close> by simp
  ultimately show ?case by simp
qed

lemma int_of_digits_pos:
  assumes "n \<noteq> []" and "is_nonzero_digit (hd n)" and "list_all is_digit n"
  shows "0 < int_of_digits n"
proof -
  from assms(1) obtain d ds where n: "n = d # ds" by (cases n) auto
  with assms have d: "0 < digit_val d" and ds: "list_all is_digit ds"
    by (simp_all add: digit_val_nonzero)
  from foldl_digits_mono [OF ds, of "digit_val d"] d
  have "digit_val d \<le> foldl (\<lambda>a x. 10 * a + digit_val x) (digit_val d) ds" by simp
  with d show ?thesis by (simp add: n int_of_digits_def)
qed

lemma pattern_at_form:
  "match_here arc_error_pattern s [] = Some n \<longleftrightarrow>
     (\<exists>zs post. s = ''ERROR '' @ zs @ n @ '':'' @ post \<and> code_form zs n)"
proof
  assume "match_here arc_error_pattern s [] = Some n"
  then obtain zs d ds post where d: "s = ''ERROR '' @ zs @ d # ds @ CHR '':'' # post" "zs \<noteq> []"
        "set zs \<subseteq> {CHR ''0''}" "is_nonzero_digit d" "list_all is_digit ds" "n = d # ds"
    unfolding pattern_at by blast
  then have "s = ''ERROR '' @ zs @ n @ '':'' @ post \<and> code_form zs n"
    by (auto simp: code_form_def list_all_iff nonzero_is_digit)
  then show "\<exists>zs post. s = ''ERROR '' @ zs @ n @ '':'' @ post \<and> code_form zs n" by blast
next
  assume "\<exists>zs post. s = ''ERROR '' @ zs @ n @ '':'' @ post \<and> code_form zs n"
  then obtain zs post where d: "s = ''ERROR '' @ zs @ n @ '':'' @ post" "code_form zs n" by blast
  from d(2) obtain x ds where n: "n = x # ds" by (cases n) (auto simp: code_form_def)
  with d have "s = ''ERROR '' @ zs @ x # ds @ CHR '':'' # post \<and> zs \<noteq> []
        \<and> set zs \<subseteq> {CHR ''0''} \<and> is_nonzero_digit x \<and> list_all is_digit ds \<and> n = x # ds"
    by (auto simp: code_form_def list_all_iff)
  then show "match_here arc_error_pattern s [] = Some n"
    unfolding pattern_at by blast
qed


lemma re_search_code:
  "re_search arc_error_pattern s = Some n \<longleftrightarrow>
     (\<exists>pre zs post. s = pre @ ''ERROR '' @ zs @ n @ '':'' @ post \<and> code_form zs n
        \<and> (\<forall>pre' zs' n' post'. s = pre' @ ''ERROR '' @ zs' @ n' @ '':'' @ post' \<and> code_form zs' n'
              \<longrightarrow> length pre \<le> length pre'))"
proof
  assume "re_search arc_error_pattern s = Some n"
  then obtain pre suf where d: "s = pre @ suf" "match_here arc_error_pattern suf [] = Some n"
    and least: "\<And>pre' suf'. s = pre' @ suf' \<Longrightarrow> length pre' < length pre
                  \<Longrightarrow> match_here arc_error_pattern suf' [] = None"
    unfolding re_search_Some_iff by blast
  from d(2) obtain zs post where f: "suf = ''ERROR '' @ zs @ n @ '':'' @ post" "code_form zs n"
    unfolding pattern_at_form by blast
  have "length pre \<le> length pre'"
    if "s = pre' @ ''ERROR '' @ zs' @ n' @ '':'' @ post'" "code_form zs' n'" for pre' zs' n' post'
  proof (rule ccontr)
    assume "\<not> length pre \<le> length pre'"
    then have "match_here arc_error_pattern (''ERROR '' @ zs' @ n' @ '':'' @ post') [] = None"
      using least [of pre' "''ERROR '' @ zs' @ n' @ '':'' @ post'"] that(1) by simp
    moreover have "match_here arc_error_pattern (''ERROR '' @ zs' @ n' @ '':'' @ post') [] = Some n'"
      unfolding pattern_at_form using that(2) by blast
    ultimately show False by simp
  qed
  with d(1) f have "s = pre @ ''ERROR '' @ zs @ n @ '':'' @ post \<and> code_form zs n
        \<and> (\<forall>pre' zs' n' post'. s = pre' @ ''ERROR '' @ zs' @ n' @ '':'' @ post' \<and> code_form zs' n'
              \<longrightarrow> length pre \<le> length pre')" by blast
  then show "\<exists>pre zs post. s = pre @ ''ERROR '' @ zs @ n @ '':'' @ post \<and> code_form zs n
        \<and> (\<forall>pre' zs' n' post'. s = pre' @ ''ERROR '' @ zs' @ n' @ '':'' @ post' \<and> code_form zs' n'
              \<longrightarrow> length pre \<le> length pre')" by blast
next
  assume "\<exists>pre zs post. s = pre @ ''ERROR '' @ zs @ n @ '':'' @ post \<and> code_form zs n
        \<and> (\<forall>pre' zs' n' post'. s = pre' @ ''ERROR '' @ zs' @ n' @ '':'' @ post' \<and> code_form zs' n'
              \<longrightarrow> length pre \<le> length pre')"
  then obtain pre zs post where d: "s = pre @ ''ERROR '' @ zs @ n @ '':'' @ post" "code_form zs n"
    and least: "\<And>pre' zs' n' post'. s = pre' @ ''ERROR '' @ zs' @ n' @ '':'' @ post' \<Longrightarrow> code_form zs' n'
              \<Longrightarrow> length pre \<le> length pre'" by blast
  have m: "match_here arc_error_pattern (''ERROR '' @ zs @ n @ '':'' @ post) [] = Some n"
    unfolding pattern_at_form using d(2) by blast
  have none: "match_here arc_error_pattern suf' [] = None"
    if "s = pre' @ suf'" "length pre' < length pre" for pre' suf'
  proof (cases "match_here arc_error_pattern suf' []")
    case None
    then show ?thesis .
  next
    case (Some n')
    then obtain zs' post' where "suf' = ''ERROR '' @ zs' @ n' @ '':'' @ post'" "code_form zs' n'"
      unfolding pattern_at_form by blast
    with that(1) have "length pre \<le> length pre'" by (intro least) simp_all
    with that(2) show ?thesis by simp
  qed
  from d(1) m none
  have "s = pre @ (''ERROR '' @ zs @ n @ '':'' @ post)
        \<and> match_here arc_error_pattern (''ERROR '' @ zs @ n @ '':'' @ post) [] = Some n
        \<and> (\<forall>pre' suf'. s = pre' @ suf' \<and> length pre' < length pre
              \<longrightarrow> match_here arc_error_pattern suf' [] = None)" by blast
  then show "re_search arc_error_pattern s = Some n"
    unfolding re_search_Some_iff by blast
qed

lemma re_search_no_code:
  "re_search arc_error_pattern s = None \<longleftrightarrow>
     \<not> (\<exists>pre zs n post. s = pre @ ''ERROR '' @ zs @ n @ '':'' @ post \<and> code_form zs n)"
proof
  assume none: "re_search arc_error_pattern s = None"
  show "\<not> (\<exists>pre zs n post. s = pre @ ''ERROR '' @ zs @ n @ '':'' @ post \<and> code_form zs n)"
  proof
    assume "\<exists>pre zs n post. s = pre @ ''ERROR '' @ zs @ n @ '':'' @ post \<and> code_form zs n"
    then obtain pre zs n post where d: "s = pre @ ''ERROR '' @ zs @ n @ '':'' @ post" "code_form zs n"
      by blast
    have "match_here arc_error_pattern (''ERROR '' @ zs @ n @ '':'' @ post) [] = Some n"
      unfolding pattern_at_form using d(2) by blast
    moreover from none d(1) have "match_here arc_error_pattern (''ERROR '' @ zs @ n @ '':'' @ post) [] = None"
      unfolding re_search_None_iff by blast
    ultimately show False by simp
  qed
next
  assume no: "\<not> (\<exists>pre zs n post. s = pre @ ''ERROR '' @ zs @ n @ '':'' @ post \<and> code_form zs n)"
  have "match_here arc_error_pattern suf [] = None" if "s = pre @ suf" for pre suf
  proof (cases "match_here arc_error_pattern suf []")
    case None
    then show ?thesis .
  next
    case (Some n)
    then obtain zs post where "suf = ''ERROR '' @ zs @ n @ '':'' @ post" "code_form zs n"
      unfolding pattern_at_form by blast
    with that no show ?thesis by blast
  qed
  then show "re_search arc_error_pattern s = None"
    unfolding re_search_None_iff by blast
qed


lemma parse_732: "parse_arc_error (ExecuteError ''ERROR 000732: Input batch job file does not exist'') = Ok 732"
  by (simp add: parse_arc_error_def arc_error_pattern_def lit_def is_digit_def is_nonzero_digit_def
        grp_def int_of_digits_def digit_val_def)

lemma parse_999999: "parse_arc_error (ExecuteError ''Failed. ERROR 999999: Error executing function.'') =
    Raise (ExecuteError ''Failed. ERROR 999999: Error executing function.'')"
  by (simp add: parse_arc_error_def arc_error_pattern_def lit_def is_digit_def is_nonzero_digit_def
        grp_def int_of_digits_def digit_val_def)

lemma parse_210: "parse_arc_error (ExecuteError ''ERROR 000210: Cannot create output'') = Ok 210"
  by (simp add: parse_arc_error_def arc_error_pattern_def lit_def is_digit_def is_nonzero_digit_def
        grp_def int_of_digits_def digit_val_def)

text \<open>
  C10. \<open>parse_arc_error\<close> returns a number exactly when the message of the error contains
  the text \<open>ERROR\<close>, a blank, one or more zeros, the digits of a positive number and a colon:
  the number returned is that of the leftmost such text, read without its zeros, and it is
  positive. When the message contains no such text, and only then, the error itself is
  raised again; \<open>parse_arc_error\<close> raises no other exception.
\<close>

theorem parse_arc_error_code:
  "(parse_arc_error e = Ok k \<longleftrightarrow>
      (\<exists>pre zs n post.
          message e = pre @ ''ERROR '' @ zs @ n @ '':'' @ post \<and> code_form zs n
          \<and> k = int_of_digits n
          \<and> (\<forall>pre' zs' n' post'.
                message e = pre' @ ''ERROR '' @ zs' @ n' @ '':'' @ post' \<and> code_form zs' n'
                \<longrightarrow> length pre \<le> length pre')))
   \<and> (parse_arc_error e = Raise e \<longleftrightarrow>
        \<not> (\<exists>pre zs n post. message e = pre @ ''ERROR '' @ zs @ n @ '':'' @ post \<and> code_form zs n))
   \<and> (parse_arc_error e = Ok k \<longrightarrow> 0 < k)
   \<and> (parse_arc_error e = Raise e' \<longrightarrow> e' = e)"
proof -
  have ok: "parse_arc_error e = Ok k \<longleftrightarrow>
      (\<exists>n. re_search arc_error_pattern (message e) = Some n \<and> k = int_of_digits n)"
    by (auto simp: parse_arc_error_def split: option.splits)
  have first: "parse_arc_error e = Ok k \<longleftrightarrow>
      (\<exists>pre zs n post.
          message e = pre @ ''ERROR '' @ zs @ n @ '':'' @ post \<and> code_form zs n
          \<and> k = int_of_digits n
          \<and> (\<forall>pre' zs' n' post'.
                message e = pre' @ ''ERROR '' @ zs' @ n' @ '':'' @ post' \<and> code_form zs' n'
                \<longrightarrow> length pre \<le> length pre'))"
    unfolding ok re_search_code by blast
  have second: "parse_arc_error e = Raise e \<longleftrightarrow>
        \<not> (\<exists>pre zs n post. message e = pre @ ''ERROR '' @ zs @ n @ '':'' @ post \<and> code_form zs n)"
    unfolding re_search_no_code [symmetric]
    by (simp add: parse_arc_error_def split: option.splits)
  have third: "0 < k" if "parse_arc_error e = Ok k"
  proof -
    from that obtain pre zs n post where "code_form zs n" "k = int_of_digits n"
      unfolding first by blast
    then show ?thesis by (simp add: code_form_def int_of_digits_pos)
  qed
  have fourth: "e' = e" if "parse_arc_error e = Raise e'"
    using that by (simp add: parse_arc_error_def split: option.splits)
  from first second third fourth show ?thesis by blast
qed

theorem parse_arc_error_code_witness:
  "parse_arc_error (ExecuteError ''ERROR 000732: Input batch job file does not exist'') = Ok 732
   \<and> message (ExecuteError ''ERROR 000732: Input batch job file does not exist'') =
       [] @ ''ERROR '' @ ''000'' @ ''732'' @ '':'' @ '' Input batch job file does not exist''
   \<and> code_form ''000'' ''732''
   \<and> int_of_digits ''732'' = 732
   \<and> (0::int) < 732
   \<and> parse_arc_error (ExecuteError ''Failed. ERROR 999999: Error executing function.'') =
       Raise (ExecuteError ''Failed. ERROR 999999: Error executing function.'')
   \<and> \<not> (\<exists>pre zs n post.
          message (ExecuteError ''Failed. ERROR 999999: Error executing function.'') =
            pre @ ''ERROR '' @ zs @ n @ '':'' @ post \<and> code_form zs n)"
  using parse_arc_error_code [of "ExecuteError ''ERROR 000732: Input batch job file does not exist''" 732]
    parse_arc_error_code [of "ExecuteError ''Failed. ERROR 999999: Error executing function.''"]
    parse_732 parse_999999
  by (simp add: code_form_def is_digit_def is_nonzero_digit_def int_of_digits_def digit_val_def)

subsection \<open>Engine errors in the loop over the rule files\<close>

lemma after_jobs_Nil: "after_jobs sid [] [] st = st"
  by (simp add: after_jobs_def)

lemma exec_rules_step_ok:
  "execute_batch_job ev (dr_gdb_location st) sid f (db st) = None \<Longrightarrow>
   exec_rules ev sid (f # fs) st = exec_rules ev sid fs (after_jobs sid [f] [] st)"
  by (simp add: after_jobs_def set_msg_def print_line_def emit_def Let_def)

lemma engine_error_codeD:
  "engine_error_code ev loc sid f d = Some n \<Longrightarrow>
   \<exists>ee. execute_batch_job ev loc sid f d = Some ee \<and> is_ExecuteError ee \<and> parse_arc_error ee = Ok n"
  by (auto simp: engine_error_code_def split: option.splits if_splits outcome.splits)

lemma exec_rules_step_732:
  assumes "engine_error_code ev (dr_gdb_location st) sid f (db st) = Some 732"
  shows "exec_rules ev sid (f # fs) st = exec_rules ev sid fs (after_jobs sid [f] [f] st)"
proof -
  from engine_error_codeD [OF assms] obtain ee
    where "execute_batch_job ev (dr_gdb_location st) sid f (db st) = Some ee"
      and "is_ExecuteError ee" and "parse_arc_error ee = Ok 732" by blast
  then show ?thesis
    by (simp add: after_jobs_def set_msg_def print_line_def emit_def log_msg_def log_line_def Let_def)
qed

lemma parse_arc_error_Raise: "parse_arc_error ee = Raise e \<Longrightarrow> e = ee"
  by (simp add: parse_arc_error_def split: option.splits)

lemma exec_rules_step_fatal:
  assumes "execute_batch_job ev (dr_gdb_location st) sid f (db st) = Some ee"
    and "engine_error_code ev (dr_gdb_location st) sid f (db st) \<noteq> Some 732"
  shows "exec_rules ev sid (f # fs) st = (Raise ee, after_jobs sid [f] [] st)"
proof (cases "is_ExecuteError ee")
  case False
  with assms(1) show ?thesis
    by (simp add: after_jobs_def set_msg_def print_line_def emit_def Let_def)
next
  case True
  show ?thesis
  proof (cases "parse_arc_error ee")
    case (Ok n)
    with assms True have "n \<noteq> 732" by (simp add: engine_error_code_def)
    with assms(1) True Ok show ?thesis
      by (simp add: after_jobs_def set_msg_def print_line_def emit_def Let_def)
  next
    case (Raise e)
    with parse_arc_error_Raise [OF Raise] assms(1) True show ?thesis
      by (simp add: after_jobs_def set_msg_def print_line_def emit_def Let_def)
  qed
qed

lemma after_jobs_after_jobs:
  "after_jobs sid fs2 ms2 (after_jobs sid fs1 ms1 st) = after_jobs sid (fs1 @ fs2) (ms1 @ ms2) st"
  by (simp add: after_jobs_def)

lemma after_jobs_fields:
  "dr_gdb_location (after_jobs sid fs ms st) = dr_gdb_location st"
  "db (after_jobs sid fs ms st) = db st"
  by (simp_all add: after_jobs_def)

lemma exec_rules_passing:
  "list_all (job_passes ev (dr_gdb_location st) sid (db st)) fs \<Longrightarrow>
   exec_rules ev sid (fs @ rest) st =
     exec_rules ev sid rest
       (after_jobs sid fs
          (filter (\<lambda>f. engine_error_code ev (dr_gdb_location st) sid f (db st) = Some 732) fs) st)"
proof (induction fs arbitrary: st)
  case Nil
  then show ?case by (simp add: after_jobs_Nil)
next
  case (Cons f fs)
  from Cons.prems have tl: "list_all (job_passes ev (dr_gdb_location st) sid (db st)) fs"
    and f: "job_passes ev (dr_gdb_location st) sid (db st) f" by simp_all
  show ?case
  proof (cases "engine_error_code ev (dr_gdb_location st) sid f (db st) = Some 732")
    case True
    have "exec_rules ev sid ((f # fs) @ rest) st = exec_rules ev sid (fs @ rest) (after_jobs sid [f] [f] st)"
      using exec_rules_step_732 [OF True] by simp
    also have "\<dots> = exec_rules ev sid rest
       (after_jobs sid fs
          (filter (\<lambda>f. engine_error_code ev (dr_gdb_location st) sid f (db st) = Some 732) fs)
          (after_jobs sid [f] [f] st))"
      using Cons.IH [of "after_jobs sid [f] [f] st"] tl by (simp add: after_jobs_fields)
    finally show ?thesis using True by (simp add: after_jobs_after_jobs)
  next
    case False
    with f have ok: "execute_batch_job ev (dr_gdb_location st) sid f (db st) = None"
      by (simp add: job_passes_def)
    have "exec_rules ev sid ((f # fs) @ rest) st = exec_rules ev sid (fs @ rest) (after_jobs sid [f] [] st)"
      using exec_rules_step_ok [OF ok] by simp
    also have "\<dots> = exec_rules ev sid rest
       (after_jobs sid fs
          (filter (\<lambda>f. engine_error_code ev (dr_gdb_location st) sid f (db st) = Some 732) fs)
          (after_jobs sid [f] [] st))"
      using Cons.IH [of "after_jobs sid [f] [] st"] tl by (simp add: after_jobs_fields)
    finally show ?thesis using False by (simp add: after_jobs_after_jobs)
  qed
qed


lemma faulty_codes:
  "execute_batch_job faulty_env loc sid ''a.rbj'' d = None"
  "execute_batch_job faulty_env loc sid ''d.rbj'' d = None"
  "execute_batch_job faulty_env loc sid ''c.rbj'' d = Some (ExecuteError ''ERROR 000210: Cannot create output'')"
  "engine_error_code faulty_env loc sid ''a.rbj'' d = None"
  "engine_error_code faulty_env loc sid ''b.rbj'' d = Some 732"
  "engine_error_code faulty_env loc sid ''c.rbj'' d = Some 210"
  "engine_error_code faulty_env loc sid ''d.rbj'' d = None"
  by (simp_all add: faulty_env_def engine_error_code_def parse_732 parse_210)

lemma faulty_open_session:
  "open_session faulty_env ''log.txt'' demo_state =
    (Ok (7, ''Session 7 : log.txt''),
     demo_state\<lparr>tmp_log := [''Checking testdata.gdb'', ''Errors will be written to drbot_test.gdb''],
       messages := [''Preparing Data Reviewer Session...'', ''Making DR gdb...'',
                    ''Creating empty fgdb for DR...'', ''    Database: drbot_test.gdb'',
                    ''  Created session:'' @ [CHR 0x0A] @ ''    Session 7 : log.txt''],
       trace := [CreateFileGDB [] ''drbot_test.gdb'',
                    EnableDataReviewer ''drbot_test.gdb'' ''4326'',
                    CreateReviewerSession ''drbot_test.gdb'' ''log.txt'' (Some ''Session 1 : empty'')],
       dirs := [''drbot_test.gdb'']\<rparr>)"
  unfolding faulty_env_def
  by (subst jobs_open_session) (simp_all add: demo_state_def)

text \<open>
  C3. In the loop over the rule files, a rule file whose job succeeds or ends with an engine
  error of code 732 does not stop the loop: when all of \<open>pre\<close> are such, every one of them
  was handed to the engine, in order, and the log has gained one warning line
  "Found execution error: File ... not found." for each that ended with code 732, and nothing
  else. After them, a rule file ending with code 732 is logged and the loop goes on with the
  rest; a rule file ending with any other exception (an engine error of another code, or
  with no code) is raised again at once, and none of the rest is handed to the engine. An
  exception raised in the loop is caught by the handler around the body of \<open>runDR\<close>, which
  logs it and its stack trace; the license is checked in and the closing lines are logged.
\<close>

theorem engine_errors_in_loop:
  assumes "list_all (job_passes ev (dr_gdb_location st) sid (db st)) pre"
  shows "exec_rules ev sid pre st =
           (Ok (), after_jobs sid pre
              (filter (\<lambda>f. engine_error_code ev (dr_gdb_location st) sid f (db st) = Some 732) pre) st)
         \<and> (engine_error_code ev (dr_gdb_location st) sid rf (db st) = Some 732 \<longrightarrow>
              exec_rules ev sid (pre @ rf # rest) st =
                exec_rules ev sid rest
                  (after_jobs sid (pre @ [rf])
                     (filter (\<lambda>f. engine_error_code ev (dr_gdb_location st) sid f (db st) = Some 732) pre
                        @ [rf]) st))
         \<and> (execute_batch_job ev (dr_gdb_location st) sid rf (db st) = Some ee
              \<and> engine_error_code ev (dr_gdb_location st) sid rf (db st) \<noteq> Some 732 \<longrightarrow>
              exec_rules ev sid (pre @ rf # rest) st =
                (Raise ee,
                 after_jobs sid (pre @ [rf])
                   (filter (\<lambda>f. engine_error_code ev (dr_gdb_location st) sid f (db st) = Some 732) pre) st))
         \<and> (open_session ev session_name start = (Ok (sess_obj_id, sid), st)
              \<and> exec_rules ev sid fs st = (Raise e, stopped) \<longrightarrow>
              run_checks ev (Some fs) session_name start =
                log_msg ([CHR 0x0A] @ ''Total '' @ script_file ev @ '' duration (h:mm:ss.dd): '' @ duration_str ev)
                  (log_msg ''Done''
                     (emit (CheckInExtension ''datareviewer'')
                        (set_msg (format_exc ev e)
                           (set_msg (''Exception during DRBot '' @ exc_str ev e) stopped)))))"
proof -
  let ?missing = "filter (\<lambda>f. engine_error_code ev (dr_gdb_location st) sid f (db st) = Some 732) pre"
  let ?mid = "after_jobs sid pre ?missing st"
  note pass = exec_rules_passing [OF assms]
  have all: "exec_rules ev sid pre st = (Ok (), ?mid)"
    using pass [of "[]"] by simp
  have skip: "exec_rules ev sid (pre @ rf # rest) st =
                exec_rules ev sid rest (after_jobs sid (pre @ [rf]) (?missing @ [rf]) st)"
    if "engine_error_code ev (dr_gdb_location st) sid rf (db st) = Some 732"
    using pass [of "rf # rest"] exec_rules_step_732 [of ev ?mid sid rf rest] that
    by (simp add: after_jobs_fields after_jobs_after_jobs)
  have abort: "exec_rules ev sid (pre @ rf # rest) st =
                (Raise ee, after_jobs sid (pre @ [rf]) ?missing st)"
    if "execute_batch_job ev (dr_gdb_location st) sid rf (db st) = Some ee"
      "engine_error_code ev (dr_gdb_location st) sid rf (db st) \<noteq> Some 732"
    using pass [of "rf # rest"] exec_rules_step_fatal [of ev ?mid sid rf ee rest] that
    by (simp add: after_jobs_fields after_jobs_after_jobs)
  have handler: "run_checks ev (Some fs) session_name start =
                log_msg ([CHR 0x0A] @ ''Total '' @ script_file ev @ '' duration (h:mm:ss.dd): '' @ duration_str ev)
                  (log_msg ''Done''
                     (emit (CheckInExtension ''datareviewer'')
                        (set_msg (format_exc ev e)
                           (set_msg (''Exception during DRBot '' @ exc_str ev e) stopped))))"
    if "open_session ev session_name start = (Ok (sess_obj_id, sid), st)"
      "exec_rules ev sid fs st = (Raise e, stopped)"
    using that by (simp add: run_checks_def dr_body_def Let_def)
  from all skip abort handler show ?thesis by blast
qed

theorem engine_errors_in_loop_witness:
  "list_all (job_passes faulty_env (dr_gdb_location demo_state) ''Session 7 : log.txt'' (db demo_state))
     [''a.rbj'', ''b.rbj'']
   \<and> engine_error_code faulty_env (dr_gdb_location demo_state) ''Session 7 : log.txt'' ''b.rbj''
         (db demo_state) = Some 732
   \<and> engine_error_code faulty_env (dr_gdb_location demo_state) ''Session 7 : log.txt'' ''c.rbj''
         (db demo_state) = Some 210
   \<and> exec_rules faulty_env ''Session 7 : log.txt'' [''a.rbj'', ''b.rbj''] demo_state =
       (Ok (),
        demo_state\<lparr>messages := [''  Checking file: a.rbj'', ''  Checking file: b.rbj''],
          printed := [''Rules: a.rbj'', ''Rules: b.rbj''],
          trace := [ExecuteReviewerBatchJob ''drbot_test.gdb'' ''Session 7 : log.txt'' ''a.rbj'' ''testdata.gdb'',
                    ExecuteReviewerBatchJob ''drbot_test.gdb'' ''Session 7 : log.txt'' ''b.rbj'' ''testdata.gdb''],
          tmp_log := [''Found execution error: File b.rbj not found.'']\<rparr>)
   \<and> exec_rules faulty_env ''Session 7 : log.txt'' [''a.rbj'', ''b.rbj'', ''d.rbj''] demo_state =
       (Ok (),
        demo_state\<lparr>messages := [''  Checking file: a.rbj'', ''  Checking file: b.rbj'',
                                 ''  Checking file: d.rbj''],
          printed := [''Rules: a.rbj'', ''Rules: b.rbj'', ''Rules: d.rbj''],
          trace := [ExecuteReviewerBatchJob ''drbot_test.gdb'' ''Session 7 : log.txt'' ''a.rbj'' ''testdata.gdb'',
                    ExecuteReviewerBatchJob ''drbot_test.gdb'' ''Session 7 : log.txt'' ''b.rbj'' ''testdata.gdb'',
                    ExecuteReviewerBatchJob ''drbot_test.gdb'' ''Session 7 : log.txt'' ''d.rbj'' ''testdata.gdb''],
          tmp_log := [''Found execution error: File b.rbj not found.'']\<rparr>)
   \<and> exec_rules faulty_env ''Session 7 : log.txt'' [''a.rbj'', ''b.rbj'', ''c.rbj'', ''d.rbj''] demo_state =
       (Raise (ExecuteError ''ERROR 000210: Cannot create output''),
        demo_state\<lparr>messages := [''  Checking file: a.rbj'', ''  Checking file: b.rbj'',
                                 ''  Checking file: c.rbj''],
          printed := [''Rules: a.rbj'', ''Rules: b.rbj'', ''Rules: c.rbj''],
          trace := [ExecuteReviewerBatchJob ''drbot_test.gdb'' ''Session 7 : log.txt'' ''a.rbj'' ''testdata.gdb'',
                    ExecuteReviewerBatchJob ''drbot_test.gdb'' ''Session 7 : log.txt'' ''b.rbj'' ''testdata.gdb'',
                    ExecuteReviewerBatchJob ''drbot_test.gdb'' ''Session 7 : log.txt'' ''c.rbj'' ''testdata.gdb''],
          tmp_log := [''Found execution error: File b.rbj not found.'']\<rparr>)
   \<and> fst (open_session faulty_env ''log.txt'' demo_state) = Ok (7, ''Session 7 : log.txt'')
   \<and> tmp_log (run_checks faulty_env (Some [''a.rbj'', ''b.rbj'', ''c.rbj'', ''d.rbj'']) ''log.txt'' demo_state) =
       [''Checking testdata.gdb'', ''Errors will be written to drbot_test.gdb'',
        ''Found execution error: File b.rbj not found.'', ''Done'',
        [CHR 0x0A] @ ''Total drbot.py duration (h:mm:ss.dd): 0:00:01.000'']
   \<and> messages (run_checks faulty_env (Some [''a.rbj'', ''b.rbj'', ''c.rbj'', ''d.rbj'']) ''log.txt'' demo_state) =
       [''Preparing Data Reviewer Session...'', ''Making DR gdb...'',
        ''Creating empty fgdb for DR...'', ''    Database: drbot_test.gdb'',
        ''  Created session:'' @ [CHR 0x0A] @ ''    Session 7 : log.txt'',
        ''  Checking file: a.rbj'', ''  Checking file: b.rbj'', ''  Checking file: c.rbj'',
        ''Exception during DRBot ERROR 000210: Cannot create output'',
        ''ERROR 000210: Cannot create output'']
   \<and> trace (run_checks faulty_env (Some [''a.rbj'', ''b.rbj'', ''c.rbj'', ''d.rbj'']) ''log.txt'' demo_state) =
       [CreateFileGDB [] ''drbot_test.gdb'',
        EnableDataReviewer ''drbot_test.gdb'' ''4326'',
        CreateReviewerSession ''drbot_test.gdb'' ''log.txt'' (Some ''Session 1 : empty''),
        ExecuteReviewerBatchJob ''drbot_test.gdb'' ''Session 7 : log.txt'' ''a.rbj'' ''testdata.gdb'',
        ExecuteReviewerBatchJob ''drbot_test.gdb'' ''Session 7 : log.txt'' ''b.rbj'' ''testdata.gdb'',
        ExecuteReviewerBatchJob ''drbot_test.gdb'' ''Session 7 : log.txt'' ''c.rbj'' ''testdata.gdb'',
        CheckInExtension ''datareviewer'']"
proof -
  let ?S4 = "demo_state\<lparr>tmp_log := [''Checking testdata.gdb'', ''Errors will be written to drbot_test.gdb''],
       messages := [''Preparing Data Reviewer Session...'', ''Making DR gdb...'',
                    ''Creating empty fgdb for DR...'', ''    Database: drbot_test.gdb'',
                    ''  Created session:'' @ [CHR 0x0A] @ ''    Session 7 : log.txt''],
       trace := [CreateFileGDB [] ''drbot_test.gdb'',
                    EnableDataReviewer ''drbot_test.gdb'' ''4326'',
                    CreateReviewerSession ''drbot_test.gdb'' ''log.txt'' (Some ''Session 1 : empty'')],
       dirs := [''drbot_test.gdb'']\<rparr>"
  let ?ee = "ExecuteError ''ERROR 000210: Cannot create output''"
  have p4: "list_all (job_passes faulty_env (dr_gdb_location ?S4) ''Session 7 : log.txt'' (db ?S4))
     [''a.rbj'', ''b.rbj'']"
    by (simp add: job_passes_def faulty_codes)
  have abort4: "exec_rules faulty_env ''Session 7 : log.txt'' [''a.rbj'', ''b.rbj'', ''c.rbj'', ''d.rbj''] ?S4 =
      (Raise ?ee, after_jobs ''Session 7 : log.txt'' [''a.rbj'', ''b.rbj'', ''c.rbj''] [''b.rbj''] ?S4)"
    using exec_rules_passing [OF p4, of "[''c.rbj'', ''d.rbj'']"]
      exec_rules_step_fatal [of faulty_env
        "after_jobs ''Session 7 : log.txt'' [''a.rbj'', ''b.rbj''] [''b.rbj''] ?S4"
        "''Session 7 : log.txt''" "''c.rbj''" ?ee "[''d.rbj'']"]
    by (simp add: faulty_codes after_jobs_fields after_jobs_after_jobs del: exec_rules.simps)
  have world: "script_file faulty_env = ''drbot.py''" "duration_str faulty_env = ''0:00:01.000''"
    "exc_str faulty_env = message" "format_exc faulty_env = message"
    by (simp_all add: faulty_env_def demo_env_def)
  have rc: "run_checks faulty_env (Some [''a.rbj'', ''b.rbj'', ''c.rbj'', ''d.rbj'']) ''log.txt'' demo_state =
      log_msg ([CHR 0x0A] @ ''Total '' @ script_file faulty_env @ '' duration (h:mm:ss.dd): ''
                 @ duration_str faulty_env)
        (log_msg ''Done''
           (emit (CheckInExtension ''datareviewer'')
              (set_msg (format_exc faulty_env ?ee)
                 (set_msg (''Exception during DRBot '' @ exc_str faulty_env ?ee)
                    (after_jobs ''Session 7 : log.txt'' [''a.rbj'', ''b.rbj'', ''c.rbj''] [''b.rbj''] ?S4)))))"
    by (rule engine_errors_in_loop [OF p4, THEN conjunct2, THEN conjunct2, THEN conjunct2, THEN mp,
          OF conjI [OF faulty_open_session abort4]])
  have handled: "tmp_log (run_checks faulty_env (Some [''a.rbj'', ''b.rbj'', ''c.rbj'', ''d.rbj'']) ''log.txt'' demo_state) =
       [''Checking testdata.gdb'', ''Errors will be written to drbot_test.gdb'',
        ''Found execution error: File b.rbj not found.'', ''Done'',
        [CHR 0x0A] @ ''Total drbot.py duration (h:mm:ss.dd): 0:00:01.000'']
   \<and> messages (run_checks faulty_env (Some [''a.rbj'', ''b.rbj'', ''c.rbj'', ''d.rbj'']) ''log.txt'' demo_state) =
       [''Preparing Data Reviewer Session...'', ''Making DR gdb...'',
        ''Creating empty fgdb for DR...'', ''    Database: drbot_test.gdb'',
        ''  Created session:'' @ [CHR 0x0A] @ ''    Session 7 : log.txt'',
        ''  Checking file: a.rbj'', ''  Checking file: b.rbj'', ''  Checking file: c.rbj'',
        ''Exception during DRBot ERROR 000210: Cannot create output'',
        ''ERROR 000210: Cannot create output'']
   \<and> trace (run_checks faulty_env (Some [''a.rbj'', ''b.rbj'', ''c.rbj'', ''d.rbj'']) ''log.txt'' demo_state) =
       [CreateFileGDB [] ''drbot_test.gdb'',
        EnableDataReviewer ''drbot_test.gdb'' ''4326'',
        CreateReviewerSession ''drbot_test.gdb'' ''log.txt'' (Some ''Session 1 : empty''),
        ExecuteReviewerBatchJob ''drbot_test.gdb'' ''Session 7 : log.txt'' ''a.rbj'' ''testdata.gdb'',
        ExecuteReviewerBatchJob ''drbot_test.gdb'' ''Session 7 : log.txt'' ''b.rbj'' ''testdata.gdb'',
        ExecuteReviewerBatchJob ''drbot_test.gdb'' ''Session 7 : log.txt'' ''c.rbj'' ''testdata.gdb'',
        CheckInExtension ''datareviewer'']"
    by (simp add: rc world after_jobs_def log_msg_def log_line_def emit_def set_msg_def)
      (simp add: demo_state_def)
  have st: "dr_gdb_location demo_state = ''drbot_test.gdb''" "db demo_state = ''testdata.gdb''"
    "messages demo_state = []" "printed demo_state = []" "trace demo_state = []" "tmp_log demo_state = []"
    by (simp_all add: demo_state_def)
  have p1: "list_all (job_passes faulty_env (dr_gdb_location demo_state) ''Session 7 : log.txt'' (db demo_state))
     [''a.rbj'']"
    and p2: "list_all (job_passes faulty_env (dr_gdb_location demo_state) ''Session 7 : log.txt'' (db demo_state))
     [''a.rbj'', ''b.rbj'']"
    by (simp_all add: job_passes_def faulty_codes)
  have last_job: "exec_rules faulty_env ''Session 7 : log.txt'' [''d.rbj''] s =
      (Ok (), after_jobs ''Session 7 : log.txt'' [''d.rbj''] [] s)" for s
    using exec_rules_step_ok [of faulty_env s "''Session 7 : log.txt''" "''d.rbj''" "[]"]
    by (simp add: faulty_codes del: exec_rules.simps(2))
  show ?thesis
    using p2 handled
      engine_errors_in_loop [OF p2, where rf = "''c.rbj''" and rest = "[''d.rbj'']"
        and ee = "ExecuteError ''ERROR 000210: Cannot create output''"]
      engine_errors_in_loop [OF p1, where rf = "''b.rbj''" and rest = "[''d.rbj'']"]
    by (simp add: faulty_codes last_job after_jobs_def st faulty_open_session del: exec_rules.simps)
qed

subsection \<open>Loading the rule files\<close>

lemma run_checks_checks_in:
  "trace (run_checks ev rulefiles session_name st) =
     trace (snd (dr_body ev rulefiles session_name st)) @ [CheckInExtension ''datareviewer'']"
  by (simp add: run_checks_def log_msg_def emit_def set_msg_def Let_def split: prod.splits outcome.splits)

lemma runDR_checks_in_after_loading:
  "fst (load_rules ev rules
          (set_msg (''Loading rule file(s) from '' @ rules @ ''...'')
             (emit (CheckOutExtension ''datareviewer'') (log_msg (''Start time: '' @ now_str ev) st))))
     \<in> {Loaded fs, NotBound} \<Longrightarrow>
   last (trace (snd (runDR ev rules sess_keywd st))) = CheckInExtension ''datareviewer''"
  by (auto simp: runDR_def Let_def run_checks_checks_in split: prod.splits load_result.splits)

text \<open>
  C4. The license is checked in after the body of \<open>runDR\<close> has run, whatever the body raised
  (the two lemmas above). It is not checked in when the manifest is missing: in the concrete
  world, where no file can be read, \<open>runDR\<close> on the manifest \<open>rules.txt\<close> checks the license
  out, tries to open the file, logs the error and returns 1; the trace ends there, with no
  check-in.
\<close>

theorem runDR_missing_manifest:
  "runDR demo_env ''rules.txt'' ''log.txt'' demo_state =
     (Ok (Some 1),
      demo_state\<lparr>tmp_log := [''Start time: 2017-01-01 12:00:00.000000''],
                 messages := [''Loading rule file(s) from rules.txt...'',
                              ''ERROR reading rules rules.txt.'',
                              ''No such file or directory''],
                 trace := [CheckOutExtension ''datareviewer'', OpenRead ''rules.txt'']\<rparr>)
   \<and> CheckInExtension ''datareviewer''
         \<notin> set (trace (snd (runDR demo_env ''rules.txt'' ''log.txt'' demo_state)))"
proof -
  have "runDR demo_env ''rules.txt'' ''log.txt'' demo_state =
     (Ok (Some 1),
      demo_state\<lparr>tmp_log := [''Start time: 2017-01-01 12:00:00.000000''],
                 messages := [''Loading rule file(s) from rules.txt...'',
                              ''ERROR reading rules rules.txt.'',
                              ''No such file or directory''],
                 trace := [CheckOutExtension ''datareviewer'', OpenRead ''rules.txt'']\<rparr>)"
    by (simp add: runDR_def load_rules_def sublist_code log_msg_def log_line_def emit_def set_msg_def
          demo_env_def demo_state_def Let_def)
  then show ?thesis by simp
qed

lemma resolve_lines_well_formed:
  "list_all (\<lambda>lin. take 1 lin = ''#'' \<or> 2 \<le> length lin) lins \<Longrightarrow>
   resolve_lines ev rules lins =
     Ok (map (\<lambda>lin. if lin ! 1 = CHR '':'' \<or> lin ! 0 = CHR ''/'' then lin
                      else path_join ev (path_dirname ev rules) lin)
           (filter (\<lambda>lin. take 1 lin \<noteq> ''#'') lins))"
  by (induction lins) (auto simp: fix_path_def)

lemma resolve_lines_short_line:
  "list_all (\<lambda>lin. take 1 lin = ''#'' \<or> 2 \<le> length lin) pre \<Longrightarrow>
   length lin < 2 \<Longrightarrow> lin \<noteq> ''#'' \<Longrightarrow>
   resolve_lines ev rules (pre @ lin # rest) = Raise (IndexError ''string index out of range'')"
proof (induction pre)
  case Nil
  then show ?case by (cases lin) (auto simp: fix_path_def)
next
  case (Cons a pre)
  then show ?case by (auto simp: fix_path_def)
qed

lemma manifest_with_comment:
  "splitlines (''ruleA.rbj'' @ [CHR 0x0A] @ ''# ruleB.rbj'' @ [CHR 0x0A] @ ''ruleC.rbj'') =
     [''ruleA.rbj'', ''# ruleB.rbj'', ''ruleC.rbj'']
   \<and> resolve_lines demo_env ''rules.txt'' [''ruleA.rbj'', ''# ruleB.rbj'', ''ruleC.rbj''] =
       Ok [''ruleA.rbj'', ''ruleC.rbj'']
   \<and> exec_rules ev sid [] st = (Ok (), st)"
  by (simp add: splitlines_def fix_path_def demo_env_def nt_dirname_def nt_join_def rfind_def)

text \<open>
  C2. A manifest whose lines are comments or have at least two characters is resolved to
  its lines that are not comments, in order (the lemmas above). A blank line is not left
  out: for the manifest of the three lines \<open>ruleA.rbj\<close>, an empty line and \<open>ruleC.rbj\<close>, the
  empty line passes the test for comments, \<open>fix_path\<close> raises \<open>IndexError\<close> on it, and the
  exception leaves \<open>runDR\<close> with the license checked out and no rule file run.
\<close>

theorem manifest_with_blank_line:
  "splitlines (''ruleA.rbj'' @ [CHR 0x0A, CHR 0x0A] @ ''ruleC.rbj'') = [''ruleA.rbj'', [], ''ruleC.rbj'']
   \<and> resolve_lines demo_env ''rules.txt'' [''ruleA.rbj'', [], ''ruleC.rbj''] =
       Raise (IndexError ''string index out of range'')
   \<and> runDR (demo_env\<lparr>read_file := (\<lambda>p. Inr (''ruleA.rbj'' @ [CHR 0x0A, CHR 0x0A] @ ''ruleC.rbj''))\<rparr>)
         ''rules.txt'' ''log.txt'' demo_state =
       (Raise (IndexError ''string index out of range''),
        demo_state\<lparr>tmp_log := [''Start time: 2017-01-01 12:00:00.000000''],
                   messages := [''Loading rule file(s) from rules.txt...''],
                   trace := [CheckOutExtension ''datareviewer'', OpenRead ''rules.txt'']\<rparr>)"
proof -
  have sp: "splitlines (''ruleA.rbj'' @ [CHR 0x0A, CHR 0x0A] @ ''ruleC.rbj'') = [''ruleA.rbj'', [], ''ruleC.rbj'']"
    by (simp add: splitlines_def)
  have rs: "resolve_lines (demo_env\<lparr>read_file := r\<rparr>) ''rules.txt'' [''ruleA.rbj'', [], ''ruleC.rbj''] =
       Raise (IndexError ''string index out of range'')" for r
    by (simp add: fix_path_def)
  have rs': "resolve_lines demo_env ''rules.txt'' [''ruleA.rbj'', [], ''ruleC.rbj''] =
       Raise (IndexError ''string index out of range'')"
    by (simp add: fix_path_def)
  have "runDR (demo_env\<lparr>read_file := (\<lambda>p. Inr (''ruleA.rbj'' @ [CHR 0x0A, CHR 0x0A] @ ''ruleC.rbj''))\<rparr>)
         ''rules.txt'' ''log.txt'' demo_state =
       (Raise (IndexError ''string index out of range''),
        demo_state\<lparr>tmp_log := [''Start time: 2017-01-01 12:00:00.000000''],
                   messages := [''Loading rule file(s) from rules.txt...''],
                   trace := [CheckOutExtension ''datareviewer'', OpenRead ''rules.txt'']\<rparr>)"
    using sp
    by (simp add: runDR_def load_rules_def sublist_code rs log_msg_def log_line_def emit_def set_msg_def
          Let_def del: resolve_lines.simps)
      (simp add: demo_env_def demo_state_def)
  with sp rs' show ?thesis by simp
qed

end
